theory Spec2Isabelle
  imports Main
begin

section \<open>Process supervisor for the media server\<close>

text \<open>
  The supervisor is the module-level code of the server entry point: the constant
  \<open>MEDIAMTX_RESTART\<close>, the mutable \<open>restartState\<close> and \<open>mediamtxProcess\<close>, and the
  functions \<open>resetRestartState\<close>, \<open>startMediaMTX\<close>, \<open>scheduleRestart\<close> and
  \<open>stopMediaMTX\<close>. Durations and timestamps are milliseconds.
\<close>

record restart_config =
  initialDelay :: int
  maxDelay :: int
  maxRestarts :: int
  resetAfter :: int

definition MEDIAMTX_RESTART :: restart_config where
  "MEDIAMTX_RESTART =
     \<lparr>initialDelay = 2000, maxDelay = 60000, maxRestarts = 10, resetAfter = 300000\<rparr>"

record restart_state =
  count :: int
  delay :: int
  lastStableTime :: "int option"

text \<open>
  The two callbacks the supervisor hands to \<open>setTimeout\<close>: \<open>startMediaMTX\<close> itself (from
  \<open>scheduleRestart\<close>) and the anonymous stability check armed by \<open>startMediaMTX\<close>.
  Neither closure captures anything but the module-level variables.
\<close>

datatype timer_callback = StartMediaMTX | StabilityCheck

text \<open>An exit code is \<open>None\<close> for JavaScript's \<open>null\<close> (the process was ended by a signal).\<close>

datatype broadcast = StreamStopped "int option" | StreamError string

text \<open>What the supervisor does to the outside world, in the order it does it.\<close>

datatype effect =
    Spawn nat
  | Kill nat
  | Broadcast broadcast
  | SetTimeout timer_callback int

text \<open>
  A process handle is the number of the spawn that produced it. \<open>timers\<close> holds the
  pending timeouts with their due time, \<open>alive\<close> the spawned processes that have not
  exited yet, \<open>clock\<close> is \<open>Date.now()\<close>.
\<close>

record supervisor =
  restartState :: restart_state
  mediamtxProcess :: "nat option"
  clock :: int
  timers :: "(int \<times> timer_callback) list"
  spawned :: nat
  alive :: "nat list"
  effects :: "effect list"

definition give_up_message :: string where
  "give_up_message = ''MediaMTX failed too many times''"

definition setTimeout :: "timer_callback \<Rightarrow> int \<Rightarrow> supervisor \<Rightarrow> supervisor" where
  "setTimeout cb d s =
     s\<lparr>timers := timers s @ [(clock s + d, cb)],
       effects := effects s @ [SetTimeout cb d]\<rparr>"

definition broadcast_event :: "broadcast \<Rightarrow> supervisor \<Rightarrow> supervisor" where
  "broadcast_event b s = s\<lparr>effects := effects s @ [Broadcast b]\<rparr>"

definition resetRestartState :: "restart_config \<Rightarrow> supervisor \<Rightarrow> supervisor" where
  "resetRestartState cfg s =
     s\<lparr>restartState := \<lparr>count = 0, delay = initialDelay cfg, lastStableTime = None\<rparr>\<rparr>"

text \<open>
  \<open>startMediaMTX\<close>: spawn, keep the handle, stamp \<open>lastStableTime\<close> and arm the
  stability timer. The handlers it registers are \<open>on_error\<close> and \<open>on_exit\<close> below.
\<close>

definition startMediaMTX :: "restart_config \<Rightarrow> supervisor \<Rightarrow> supervisor" where
  "startMediaMTX cfg s =
     (let p = spawned s;
          s1 = s\<lparr>mediamtxProcess := Some p, spawned := Suc p, alive := alive s @ [p],
                 effects := effects s @ [Spawn p]\<rparr>;
          s2 = s1\<lparr>restartState := (restartState s1)\<lparr>lastStableTime := Some (clock s1)\<rparr>\<rparr>
      in setTimeout StabilityCheck (resetAfter cfg) s2)"

text \<open>
  The stability callback. \<open>mediamtxProcess && restartState.lastStableTime\<close> is a
  truthiness test: the handle is not \<open>null\<close>, the timestamp is neither \<open>null\<close> nor 0.
\<close>

definition stability_check :: "restart_config \<Rightarrow> supervisor \<Rightarrow> supervisor" where
  "stability_check cfg s =
     (case (mediamtxProcess s, lastStableTime (restartState s)) of
        (Some p, Some t) \<Rightarrow>
          if t \<noteq> 0 then
            (let runningTime = clock s - t
             in if runningTime \<ge> resetAfter cfg then resetRestartState cfg s else s)
          else s
      | _ \<Rightarrow> s)"

definition scheduleRestart :: "restart_config \<Rightarrow> supervisor \<Rightarrow> supervisor" where
  "scheduleRestart cfg s =
     (let s1 = s\<lparr>restartState := (restartState s)\<lparr>count := count (restartState s) + 1\<rparr>\<rparr>
      in if count (restartState s1) > maxRestarts cfg
         then broadcast_event (StreamError give_up_message) s1
         else
           (let s2 = setTimeout StartMediaMTX (delay (restartState s1)) s1
            in s2\<lparr>restartState := (restartState s2)
                    \<lparr>delay := min (delay (restartState s2) * 2) (maxDelay cfg)\<rparr>\<rparr>))"

definition on_error :: "string \<Rightarrow> supervisor \<Rightarrow> supervisor" where
  "on_error msg s = broadcast_event (StreamError msg) s"

definition on_exit :: "restart_config \<Rightarrow> int option \<Rightarrow> supervisor \<Rightarrow> supervisor" where
  "on_exit cfg code s =
     (let s1 = broadcast_event (StreamStopped code) s
      in if code \<noteq> Some 0 then scheduleRestart cfg s1 else s1)"

definition stopMediaMTX :: "supervisor \<Rightarrow> supervisor" where
  "stopMediaMTX s =
     (case mediamtxProcess s of
        Some p \<Rightarrow> s\<lparr>effects := effects s @ [Kill p], mediamtxProcess := None\<rparr>
      | None \<Rightarrow> s)"

subsection \<open>The event loop around the supervisor\<close>

text \<open>
  The supervisor only runs when the runtime calls it: a child process exits or reports
  an error, a timeout comes due, or \<open>stopMediaMTX\<close> is called. A timeout fires no
  earlier than its due time; timeouts with the same callback fire in the order they were
  set. An event that cannot happen in the current state yields \<open>None\<close>.
\<close>

datatype event =
    ProcessExit nat "int option"
  | ProcessError nat string
  | TimerFires timer_callback
  | Elapse int
  | StopCalled

fun take_timer ::
  "timer_callback \<Rightarrow> int \<Rightarrow> (int \<times> timer_callback) list \<Rightarrow> (int \<times> timer_callback) list option"
where
  "take_timer cb now [] = None"
| "take_timer cb now ((due, c) # ts) =
     (if c = cb then (if due \<le> now then Some ts else None)
      else map_option ((#) (due, c)) (take_timer cb now ts))"

fun run_callback :: "restart_config \<Rightarrow> timer_callback \<Rightarrow> supervisor \<Rightarrow> supervisor" where
  "run_callback cfg StartMediaMTX s = startMediaMTX cfg s"
| "run_callback cfg StabilityCheck s = stability_check cfg s"

fun step :: "restart_config \<Rightarrow> event \<Rightarrow> supervisor \<Rightarrow> supervisor option" where
  "step cfg (ProcessExit p code) s =
     (if p \<in> set (alive s) then Some (on_exit cfg code (s\<lparr>alive := removeAll p (alive s)\<rparr>))
      else None)"
| "step cfg (ProcessError p msg) s =
     (if p < spawned s then Some (on_error msg s) else None)"
| "step cfg (TimerFires cb) s =
     (case take_timer cb (clock s) (timers s) of
        None \<Rightarrow> None
      | Some ts \<Rightarrow> Some (run_callback cfg cb (s\<lparr>timers := ts\<rparr>)))"
| "step cfg (Elapse d) s = (if 0 \<le> d then Some (s\<lparr>clock := clock s + d\<rparr>) else None)"
| "step cfg StopCalled s = Some (stopMediaMTX s)"

fun run :: "restart_config \<Rightarrow> event list \<Rightarrow> supervisor \<Rightarrow> supervisor option" where
  "run cfg [] s = Some s"
| "run cfg (e # es) s = (case step cfg e s of None \<Rightarrow> None | Some s' \<Rightarrow> run cfg es s')"

text \<open>
  Module initialisation followed by the \<open>startMediaMTX()\<close> call of the \<open>listen\<close>
  callback, at time \<open>t0\<close>.
\<close>

definition initial :: "restart_config \<Rightarrow> int \<Rightarrow> supervisor" where
  "initial cfg t0 =
     \<lparr>restartState = \<lparr>count = 0, delay = initialDelay cfg, lastStableTime = None\<rparr>,
      mediamtxProcess = None, clock = t0, timers = [], spawned = 0, alive = [],
      effects = []\<rparr>"

definition boot :: "restart_config \<Rightarrow> int \<Rightarrow> supervisor" where
  "boot cfg t0 = startMediaMTX cfg (initial cfg t0)"

fun restart_delays :: "effect list \<Rightarrow> int list" where
  "restart_delays [] = []"
| "restart_delays (SetTimeout StartMediaMTX d # es) = d # restart_delays es"
| "restart_delays (_ # es) = restart_delays es"


subsection \<open>Runs between two resets of the restart state\<close>

definition backoff :: "restart_config \<Rightarrow> nat \<Rightarrow> int" where
  "backoff cfg n = min (initialDelay cfg * 2 ^ n) (maxDelay cfg)"

text \<open>The exits with a code other than 0 (\<open>null\<close> included) among the events of a run.\<close>

fun nonzero_exits :: "event list \<Rightarrow> nat" where
  "nonzero_exits [] = 0"
| "nonzero_exits (ProcessExit p code # es) =
     (if code \<noteq> Some 0 then Suc (nonzero_exits es) else nonzero_exits es)"
| "nonzero_exits (_ # es) = nonzero_exits es"

text \<open>The guard of the stability callback: a callback that runs in \<open>s\<close> resets.\<close>

definition stability_passes :: "restart_config \<Rightarrow> supervisor \<Rightarrow> bool" where
  "stability_passes cfg s =
     (case (mediamtxProcess s, lastStableTime (restartState s)) of
        (Some p, Some t) \<Rightarrow> t \<noteq> 0 \<and> resetAfter cfg \<le> clock s - t
      | _ \<Rightarrow> False)"

text \<open>
  A run in which no stability callback resets the restart state: whenever a stability
  timer fires, the guard of its callback fails.
\<close>

fun reset_free :: "restart_config \<Rightarrow> event list \<Rightarrow> supervisor \<Rightarrow> bool" where
  "reset_free cfg [] s = True"
| "reset_free cfg (e # es) s =
     ((if e = TimerFires StabilityCheck then \<not> stability_passes cfg s else True) \<and>
      (case step cfg e s of None \<Rightarrow> True | Some s' \<Rightarrow> reset_free cfg es s'))"

text \<open>
  Between two resets the counter counts the nonzero exits and the delay follows the
  backoff sequence up to the cap on restarts.
\<close>

definition tracking :: "restart_config \<Rightarrow> nat \<Rightarrow> supervisor \<Rightarrow> bool" where
  "tracking cfg k s \<longleftrightarrow>
     count (restartState s) = int k \<and>
     delay (restartState s) = backoff cfg (min k (nat (maxRestarts cfg)))"

subsection \<open>Observations on the effects of a run\<close>

text \<open>The permanent-failure event of \<open>scheduleRestart\<close>.\<close>

definition give_up :: effect where
  "give_up = Broadcast (StreamError give_up_message)"

fun spawns :: "effect list \<Rightarrow> nat list" where
  "spawns [] = []"
| "spawns (Spawn p # es) = p # spawns es"
| "spawns (_ # es) = spawns es"

text \<open>The messages of the \<open>error\<close> events the runtime delivers in a run.\<close>

fun error_messages :: "event list \<Rightarrow> string list" where
  "error_messages [] = []"
| "error_messages (ProcessError p msg # es) = msg # error_messages es"
| "error_messages (_ # es) = error_messages es"

definition pending_restarts :: "(int \<times> timer_callback) list \<Rightarrow> nat" where
  "pending_restarts ts = length (filter (\<lambda>t. snd t = StartMediaMTX) ts)"

text \<open>
  The supervisor after it has given up: the event is out once, no process is left and no
  restart is pending.
\<close>

definition terminal :: "supervisor \<Rightarrow> bool" where
  "terminal s \<longleftrightarrow>
     count_list (effects s) give_up = 1 \<and> alive s = [] \<and> pending_restarts (timers s) = 0"

text \<open>
  Before that, there is at most one media server or one pending restart, never both,
  and the counter is within the cap.
\<close>

definition sup_inv :: "restart_config \<Rightarrow> supervisor \<Rightarrow> bool" where
  "sup_inv cfg s \<longleftrightarrow>
     (count_list (effects s) give_up = 0 \<and>
      length (alive s) + pending_restarts (timers s) \<le> 1 \<and>
      count (restartState s) \<le> maxRestarts cfg)
     \<or> terminal s"

subsection \<open>Concrete runs with the configured constants\<close>

text \<open>
  The media server, started at time 1000, exits with code 1 at once, and so does each of
  its ten restarts; every restart fires when it is due.
\<close>

definition crash_trace :: "event list" where
  "crash_trace =
     [ProcessExit 0 (Some 1), Elapse 2000, TimerFires StartMediaMTX,
      ProcessExit 1 (Some 1), Elapse 4000, TimerFires StartMediaMTX,
      ProcessExit 2 (Some 1), Elapse 8000, TimerFires StartMediaMTX,
      ProcessExit 3 (Some 1), Elapse 16000, TimerFires StartMediaMTX,
      ProcessExit 4 (Some 1), Elapse 32000, TimerFires StartMediaMTX,
      ProcessExit 5 (Some 1), Elapse 60000, TimerFires StartMediaMTX,
      ProcessExit 6 (Some 1), Elapse 60000, TimerFires StartMediaMTX,
      ProcessExit 7 (Some 1), Elapse 60000, TimerFires StartMediaMTX,
      ProcessExit 8 (Some 1), Elapse 60000, TimerFires StartMediaMTX,
      ProcessExit 9 (Some 1), Elapse 60000, TimerFires StartMediaMTX,
      ProcessExit 10 (Some 1)]"

definition gave_up_state :: supervisor where
  "gave_up_state =
     \<lparr>restartState = \<lparr>count = 11, delay = 60000, lastStableTime = Some 363000\<rparr>,
      mediamtxProcess = Some 10, clock = 363000,
      timers =
        [(301000, StabilityCheck), (303000, StabilityCheck), (307000, StabilityCheck),
         (315000, StabilityCheck), (331000, StabilityCheck), (363000, StabilityCheck),
         (423000, StabilityCheck), (483000, StabilityCheck), (543000, StabilityCheck),
         (603000, StabilityCheck), (663000, StabilityCheck)],
      spawned = 11, alive = [],
      effects =
        [Spawn 0, SetTimeout StabilityCheck 300000,
         Broadcast (StreamStopped (Some 1)), SetTimeout StartMediaMTX 2000,
         Spawn 1, SetTimeout StabilityCheck 300000,
         Broadcast (StreamStopped (Some 1)), SetTimeout StartMediaMTX 4000,
         Spawn 2, SetTimeout StabilityCheck 300000,
         Broadcast (StreamStopped (Some 1)), SetTimeout StartMediaMTX 8000,
         Spawn 3, SetTimeout StabilityCheck 300000,
         Broadcast (StreamStopped (Some 1)), SetTimeout StartMediaMTX 16000,
         Spawn 4, SetTimeout StabilityCheck 300000,
         Broadcast (StreamStopped (Some 1)), SetTimeout StartMediaMTX 32000,
         Spawn 5, SetTimeout StabilityCheck 300000,
         Broadcast (StreamStopped (Some 1)), SetTimeout StartMediaMTX 60000,
         Spawn 6, SetTimeout StabilityCheck 300000,
         Broadcast (StreamStopped (Some 1)), SetTimeout StartMediaMTX 60000,
         Spawn 7, SetTimeout StabilityCheck 300000,
         Broadcast (StreamStopped (Some 1)), SetTimeout StartMediaMTX 60000,
         Spawn 8, SetTimeout StabilityCheck 300000,
         Broadcast (StreamStopped (Some 1)), SetTimeout StartMediaMTX 60000,
         Spawn 9, SetTimeout StabilityCheck 300000,
         Broadcast (StreamStopped (Some 1)), SetTimeout StartMediaMTX 60000,
         Spawn 10, SetTimeout StabilityCheck 300000,
         Broadcast (StreamStopped (Some 1)),
         Broadcast (StreamError ''MediaMTX failed too many times'')]\<rparr>"

text \<open>
  The media server, started at time 1000, has exited with code 1 at once; its restart,
  set for time 3000, is due.
\<close>

definition restart_pending :: supervisor where
  "restart_pending =
     \<lparr>restartState = \<lparr>count = 1, delay = 4000, lastStableTime = Some 1000\<rparr>,
      mediamtxProcess = Some 0, clock = 3000,
      timers = [(301000, StabilityCheck), (3000, StartMediaMTX)],
      spawned = 1, alive = [],
      effects =
        [Spawn 0, SetTimeout StabilityCheck 300000,
         Broadcast (StreamStopped (Some 1)), SetTimeout StartMediaMTX 2000]\<rparr>"

text \<open>
  The media server is started at time 1000 and exits with code 1 at time 2000; its
  restart, process 1, starts at time 4000 and exits with code 0 ten milliseconds later,
  so nothing is restarted. The stability timer of process 0 fires at time 301000; at
  time 304000 the stability timer of process 1 is due.
\<close>

definition clean_exit_trace :: "event list" where
  "clean_exit_trace =
     [Elapse 1000, ProcessExit 0 (Some 1), Elapse 2000, TimerFires StartMediaMTX,
      Elapse 10, ProcessExit 1 (Some 0), Elapse 296990, TimerFires StabilityCheck,
      Elapse 3000]"

text \<open>
  The media server is started at time 1000 and exits with code 1 at time 2000; its
  restart is killed by a signal at time 5000; the next restart, process 2, starts at
  time 9000 and runs until time 302000, when it exits with code 1. In between, at time
  301000, the stability timer of process 0 fires and finds that process 2 has been up
  for 292 seconds only.
\<close>

definition backoff_trace :: "event list" where
  "backoff_trace =
     [Elapse 1000, ProcessExit 0 (Some 1), Elapse 2000, TimerFires StartMediaMTX,
      Elapse 1000, ProcessExit 1 None, Elapse 4000, TimerFires StartMediaMTX,
      Elapse 292000, TimerFires StabilityCheck, Elapse 1000, ProcessExit 2 (Some 1)]"

definition backoff_state :: supervisor where
  "backoff_state =
     \<lparr>restartState = \<lparr>count = 3, delay = 16000, lastStableTime = Some 9000\<rparr>,
      mediamtxProcess = Some 2, clock = 302000,
      timers = [(304000, StabilityCheck), (309000, StabilityCheck), (310000, StartMediaMTX)],
      spawned = 3, alive = [],
      effects =
        [Spawn 0, SetTimeout StabilityCheck 300000,
         Broadcast (StreamStopped (Some 1)), SetTimeout StartMediaMTX 2000,
         Spawn 1, SetTimeout StabilityCheck 300000,
         Broadcast (StreamStopped None), SetTimeout StartMediaMTX 4000,
         Spawn 2, SetTimeout StabilityCheck 300000,
         Broadcast (StreamStopped (Some 1)), SetTimeout StartMediaMTX 8000]\<rparr>"

section \<open>Capture service\<close>

text \<open>
  The class \<open>CaptureService\<close>: its four fields, the stream-health and disk-space probes,
  \<open>capturePhoto\<close>, \<open>startRecording\<close>, \<open>stopRecording\<close>, \<open>getFilePath\<close> and
  \<open>deleteCapture\<close>. What the methods await (HTTP responses, child processes, the file
  system, timers) is an argument of the model; what they do to the outside world is
  returned as a list of \<open>io\<close> actions in program order. Durations are milliseconds,
  sizes are bytes.
\<close>

subsection \<open>Paths\<close>

text \<open>
  \<open>path.join\<close> of the runtime library, for POSIX paths: the non-empty arguments are
  joined with a slash and the result is normalised, which drops empty and \<open>.\<close> segments
  and resolves each \<open>..\<close> against the segment before it.
\<close>

fun split_path :: "string \<Rightarrow> string list" where
  "split_path [] = [] # []"
| "split_path (c # cs) =
     (if c = CHR ''/'' then [] # split_path cs
      else (case split_path cs of seg # segs \<Rightarrow> (c # seg) # segs | [] \<Rightarrow> [c # []]))"

text \<open>\<open>res\<close> holds the segments kept so far, last one first.\<close>

fun normalize_segments :: "bool \<Rightarrow> string list \<Rightarrow> string list \<Rightarrow> string list" where
  "normalize_segments allowAboveRoot res [] = rev res"
| "normalize_segments allowAboveRoot res (seg # segs) =
     (if seg = [] \<or> seg = ''.'' then normalize_segments allowAboveRoot res segs
      else if seg = ''..'' then
        (case res of
           [] \<Rightarrow> normalize_segments allowAboveRoot (if allowAboveRoot then [''..''] else []) segs
         | r # rs \<Rightarrow>
             if r = ''..'' then normalize_segments allowAboveRoot (''..'' # res) segs
             else normalize_segments allowAboveRoot rs segs)
      else normalize_segments allowAboveRoot (seg # res) segs)"

fun join_segments :: "string list \<Rightarrow> string" where
  "join_segments [] = []"
| "join_segments [seg] = seg"
| "join_segments (seg # segs) = seg @ ''/'' @ join_segments segs"

definition path_normalize :: "string \<Rightarrow> string" where
  "path_normalize p =
     (if p = [] then ''.''
      else
        (let isAbsolute = (hd p = CHR ''/'');
             trailingSeparator = (last p = CHR ''/'');
             q = join_segments (normalize_segments (\<not> isAbsolute) [] (split_path p))
         in if q = [] then (if isAbsolute then ''/'' else if trailingSeparator then ''./'' else ''.'')
            else (if isAbsolute then ''/'' else []) @ q @ (if trailingSeparator then ''/'' else [])))"

definition path_join :: "string list \<Rightarrow> string" where
  "path_join args =
     (case filter (\<lambda>a. a \<noteq> []) args of
        [] \<Rightarrow> ''.''
      | parts \<Rightarrow> path_normalize (join_segments parts))"

definition startsWith :: "string \<Rightarrow> string \<Rightarrow> bool" where
  "startsWith s p \<longleftrightarrow> take (length p) s = p"

text \<open>
  An absolute path in normal form is a list of plain segments, each after a slash. The
  module sits two directories below the project root.
\<close>

definition plain :: "string \<Rightarrow> bool" where
  "plain s \<longleftrightarrow> s \<noteq> [] \<and> CHR ''/'' \<notin> set s \<and> s \<noteq> ''.'' \<and> s \<noteq> ''..''"

fun abs_path :: "string list \<Rightarrow> string" where
  "abs_path [] = []"
| "abs_path (seg # segs) = ''/'' @ seg @ abs_path segs"

definition project_root :: "string list \<Rightarrow> string list" where
  "project_root segs = butlast (butlast segs)"

text \<open>The directory constants, for a module that lives in directory \<open>dirname\<close>.\<close>

definition CAPTURES_DIR :: "string \<Rightarrow> string" where
  "CAPTURES_DIR dirname = path_join [dirname, ''../../captures'']"

definition PHOTOS_DIR :: "string \<Rightarrow> string" where
  "PHOTOS_DIR dirname = path_join [CAPTURES_DIR dirname, ''photos'']"

definition VIDEOS_DIR :: "string \<Rightarrow> string" where
  "VIDEOS_DIR dirname = path_join [CAPTURES_DIR dirname, ''videos'']"

definition MIN_DISK_SPACE_MB :: int where
  "MIN_DISK_SPACE_MB = 500"

text \<open>A path lies inside a directory when it continues the directory's path below a slash.\<close>

definition inside :: "string \<Rightarrow> string \<Rightarrow> bool" where
  "inside dir p \<longleftrightarrow> startsWith p (dir @ ''/'')"

subsection \<open>State, errors, actions\<close>

record capture_service =
  recordingProcess :: "nat option"
  isRecording :: bool
  currentVideoFile :: "string option"
  recordingStartTime :: "int option"

definition constructor :: capture_service where
  "constructor =
     \<lparr>recordingProcess = None, isRecording = False, currentVideoFile = None,
      recordingStartTime = None\<rparr>"

text \<open>
  A JavaScript number that holds the result of \<open>parseInt\<close>: \<open>NaN\<close>, an integer
  of magnitude up to \<open>2^53\<close>, which the number holds exactly, or an integer beyond that,
  of which only the sign is kept here (\<open>True\<close> for negative): how the runtime rounds
  and prints such a number is left open.
\<close>

datatype js_number = NaN | Num int | Imprecise bool

text \<open>Every failure of the class is a JavaScript \<open>Error\<close> with a message.\<close>

datatype capture_error =
    StreamNotReady
  | PhotoCaptureFailed string
  | AlreadyRecording
  | InsufficientDiskSpace js_number int
  | NotRecording
  | VerificationFailed
  | InvalidFilename
  | FileNotFound

function show_nat :: "nat \<Rightarrow> string" where
  "show_nat n =
     (if n < 10 then [''0123456789'' ! n]
      else show_nat (n div 10) @ [''0123456789'' ! (n mod 10)])"
  by pat_completeness auto
termination
  by (relation "measure id") auto

definition show_int :: "int \<Rightarrow> string" where
  "show_int i = (if i < 0 then ''-'' @ show_nat (nat (- i)) else show_nat (nat i))"

text \<open>A number inside a template literal; \<open>None\<close> where the text is left open.\<close>

definition show_number :: "js_number \<Rightarrow> string option" where
  "show_number v =
     (case v of
        NaN \<Rightarrow> Some ''NaN''
      | Num i \<Rightarrow> Some (show_int i)
      | Imprecise negative \<Rightarrow> None)"

text \<open>The message of each error; \<open>None\<close> where it contains a number whose text is left open.\<close>

fun error_message :: "capture_error \<Rightarrow> string option" where
  "error_message StreamNotReady = Some ''Stream not ready - MediaMTX may be starting up''"
| "error_message (PhotoCaptureFailed tail) = Some (''Photo capture failed: '' @ tail)"
| "error_message AlreadyRecording = Some ''Already recording''"
| "error_message (InsufficientDiskSpace available need) =
     (case show_number available of
        Some shown \<Rightarrow>
          Some (''Insufficient disk space: '' @ shown @ ''MB available, need ''
                  @ show_int need @ ''MB'')
      | None \<Rightarrow> None)"
| "error_message NotRecording = Some ''Not currently recording''"
| "error_message VerificationFailed = Some ''Video file not found or empty after recording''"
| "error_message InvalidFilename = Some ''Invalid filename''"
| "error_message FileNotFound = Some ''File not found''"

type_synonym filesystem = "string \<rightharpoonup> nat"

datatype io =
    HttpGet
  | Sleep int
  | Df
  | ExecFfmpeg string
  | SpawnFfmpeg string
  | Stat string
  | Access string
  | Unlink string
  | StdinWrite string
  | StdinEnd
  | KillTerm
  | Uncaught string

record 'r outcome =
  result :: "capture_error + 'r"
  service :: capture_service
  files :: filesystem
  actions :: "io list"

subsection \<open>File names\<close>

text \<open>
  \<open>generateFilename\<close>, given the text of \<open>new Date().toISOString()\<close>: colons and full
  stops become hyphens, the first 19 characters are kept.
\<close>

definition generateFilename :: "string \<Rightarrow> string \<Rightarrow> string \<Rightarrow> string" where
  "generateFilename isoString type extension =
     (let timestamp = take 19 (map (\<lambda>c. if c = CHR '':'' \<or> c = CHR ''.'' then CHR ''-'' else c) isoString)
      in type @ ''_'' @ timestamp @ ''.'' @ extension)"

subsection \<open>Stream health\<close>

text \<open>
  One probe of the media server's path list. The promise around the request resolves to
  \<open>true\<close> only for a response that parses and lists a path named \<open>telescope\<close> that is
  ready; a response that does not parse, a request error and a request timeout resolve
  to \<open>false\<close>; \<open>Threw\<close> is an exception out of the request, caught by the loop.
\<close>

record path_item =
  name :: string
  ready :: bool

datatype probe =
    Responded "path_item list option"
  | RequestError
  | RequestTimeout
  | Threw

fun probe_ready :: "probe \<Rightarrow> bool" where
  "probe_ready (Responded (Some items)) =
     (case find (\<lambda>p. name p = ''telescope'') items of
        Some telescopePath \<Rightarrow> ready telescopePath
      | None \<Rightarrow> False)"
| "probe_ready _ = False"

text \<open>The \<open>for\<close> loop of \<open>checkStreamHealth\<close>, from attempt number \<open>attempt\<close> on.\<close>

function checkStreamHealth_from ::
  "nat \<Rightarrow> nat \<Rightarrow> int \<Rightarrow> (nat \<Rightarrow> probe) \<Rightarrow> bool \<times> io list"
where
  "checkStreamHealth_from attempt retries delayMs probes =
     (if attempt \<le> retries then
        (if probe_ready (probes attempt) then (True, [HttpGet])
         else
           (let (r, acts) = checkStreamHealth_from (Suc attempt) retries delayMs probes
            in (r, HttpGet # (if attempt < retries then [Sleep delayMs] else []) @ acts)))
      else (False, []))"
  by pat_completeness auto
termination
  by (relation "measure (\<lambda>(attempt, retries, _, _). Suc retries - attempt)") auto

definition checkStreamHealth :: "(nat \<Rightarrow> probe) \<Rightarrow> bool \<times> io list" where
  "checkStreamHealth probes = checkStreamHealth_from 1 3 1000 probes"

subsection \<open>Disk space\<close>

text \<open>
  The outcome of the \<open>df\<close> pipeline run through \<open>execAsync\<close>: the promise rejects, or it
  resolves with the text on standard output.
\<close>

datatype df_outcome = DfFailed string | DfOutput string



fun replace_first :: "char \<Rightarrow> string \<Rightarrow> string" where
  "replace_first c [] = []"
| "replace_first c (x # xs) = (if x = c then xs else x # replace_first c xs)"

definition is_space :: "char \<Rightarrow> bool" where
  "is_space c \<longleftrightarrow> c \<in> set [CHR '' '', CHR 0x09, CHR 0x0A, CHR 0x0B, CHR 0x0C, CHR 0x0D]"

definition is_digit :: "char \<Rightarrow> bool" where
  "is_digit c \<longleftrightarrow> c \<in> set ''0123456789''"

definition digit_value :: "char \<Rightarrow> int" where
  "digit_value c = int (of_char c) - 48"

text \<open>
  \<open>parseInt(s, 10)\<close> on ASCII text: leading white space, an optional sign, then the
  longest run of decimal digits.
\<close>

definition parseInt :: "string \<Rightarrow> js_number" where
  "parseInt s =
     (let t = dropWhile is_space s;
          negative = (t \<noteq> [] \<and> hd t = CHR ''-'');
          u = (if t \<noteq> [] \<and> (hd t = CHR ''-'' \<or> hd t = CHR ''+'') then tl t else t);
          z = takeWhile is_digit u
      in if z = [] then NaN
         else (let v = foldl (\<lambda>acc d. acc * 10 + digit_value d) 0 z
               in if v \<le> 9007199254740992 then Num (if negative then - v else v)
                  else Imprecise negative))"

record disk_space =
  available :: js_number
  sufficient :: bool

definition checkDiskSpace :: "df_outcome \<Rightarrow> disk_space" where
  "checkDiskSpace df =
     (case df of
        DfOutput stdout \<Rightarrow>
          (let availableMB = parseInt (replace_first CHR ''M'' stdout)
           in \<lparr>available = availableMB,
               sufficient = (case availableMB of
                               Num mb \<Rightarrow> mb \<ge> MIN_DISK_SPACE_MB
                             | NaN \<Rightarrow> False
                             | Imprecise negative \<Rightarrow> \<not> negative)\<rparr>)
      | DfFailed err \<Rightarrow> \<lparr>available = Num 0, sufficient = False\<rparr>)"

subsection \<open>Photo capture\<close>

text \<open>
  How the one-shot \<open>ffmpeg\<close> command ends: it succeeds, or \<open>execAsync\<close> rejects with an
  error that carries \<open>stderr\<close>, \<open>stdout\<close> and \<open>message\<close> (an absent field is the empty
  text; both are falsy).
\<close>

datatype exec_outcome = ExecOk | ExecFailed string string string

text \<open>
  What a call of \<open>capturePhoto\<close> meets: the two readings of the clock, the answers of the
  health probe by attempt, how the command ends, and the size of the file it has left
  at the output path, if it has left one.
\<close>

record photo_env =
  photo_now :: string
  photo_probes :: "nat \<Rightarrow> probe"
  ffmpeg_exit :: exec_outcome
  ffmpeg_wrote :: "nat option"
  photo_done :: string

text \<open>The success object: \<open>filename\<close>, \<open>path\<close>, \<open>size\<close>, \<open>timestamp\<close>.\<close>

datatype photo = Photo string string nat string

definition first_truthy :: "string list \<Rightarrow> string" where
  "first_truthy xs = (case filter (\<lambda>x. x \<noteq> []) xs of [] \<Rightarrow> last xs | x # _ \<Rightarrow> x)"

definition slice_last :: "nat \<Rightarrow> string \<Rightarrow> string" where
  "slice_last n s = drop (length s - n) s"

definition stat_error_message :: "string \<Rightarrow> string" where
  "stat_error_message p =
     ''ENOENT: no such file or directory, stat '' @ [CHR 0x27] @ p @ [CHR 0x27]"

definition capturePhoto ::
  "string \<Rightarrow> photo_env \<Rightarrow> capture_service \<Rightarrow> filesystem \<Rightarrow> photo outcome"
where
  "capturePhoto dirname env svc fs =
     (let filename = generateFilename (photo_now env) ''photo'' ''jpg'';
          filepath = path_join [PHOTOS_DIR dirname, filename];
          (streamReady, acts) = checkStreamHealth (photo_probes env)
      in if \<not> streamReady
         then \<lparr>result = Inl StreamNotReady, service = svc, files = fs, actions = acts\<rparr>
         else
           (let fs1 = (case ffmpeg_wrote env of Some n \<Rightarrow> fs(filepath \<mapsto> n) | None \<Rightarrow> fs);
                acts1 = acts @ [ExecFfmpeg filepath]
            in case ffmpeg_exit env of
                 ExecOk \<Rightarrow>
                   (case fs1 filepath of
                      Some sz \<Rightarrow>
                        \<lparr>result = Inr (Photo filename filepath sz (photo_done env)),
                         service = svc, files = fs1, actions = acts1 @ [Stat filepath]\<rparr>
                    | None \<Rightarrow>
                        \<lparr>result = Inl (PhotoCaptureFailed
                                   (slice_last 200 (stat_error_message filepath))),
                         service = svc, files = fs1,
                         actions = acts1 @ [Stat filepath, Unlink filepath]\<rparr>)
               | ExecFailed stderr stdout message \<Rightarrow>
                   \<lparr>result = Inl (PhotoCaptureFailed
                              (slice_last 200 (first_truthy [stderr, stdout, message]))),
                    service = svc, files = fs1(filepath := None),
                    actions = acts1 @ [Unlink filepath]\<rparr>))"

subsection \<open>Starting a recording\<close>

record start_env =
  start_probes :: "nat \<Rightarrow> probe"
  start_df :: df_outcome
  start_now :: string
  spawn_handle :: nat
  start_clock :: int
  start_iso :: string

text \<open>
  The success object: \<open>filename\<close>, \<open>path\<close>, \<open>startTime\<close>, \<open>diskSpaceAvailable\<close>.
\<close>

datatype recording = Recording string string string js_number

definition startRecording ::
  "string \<Rightarrow> start_env \<Rightarrow> capture_service \<Rightarrow> filesystem \<Rightarrow> recording outcome"
where
  "startRecording dirname env svc fs =
     (if isRecording svc
      then \<lparr>result = Inl AlreadyRecording, service = svc, files = fs, actions = []\<rparr>
      else
        (let (streamReady, acts) = checkStreamHealth (start_probes env)
         in if \<not> streamReady
            then \<lparr>result = Inl StreamNotReady, service = svc, files = fs, actions = acts\<rparr>
            else
              (let diskSpace = checkDiskSpace (start_df env)
               in if \<not> sufficient diskSpace
                  then \<lparr>result = Inl (InsufficientDiskSpace (available diskSpace)
                                       MIN_DISK_SPACE_MB),
                        service = svc, files = fs, actions = acts @ [Df]\<rparr>
                  else
                    (let filename = generateFilename (start_now env) ''video'' ''mp4'';
                         filepath = path_join [VIDEOS_DIR dirname, filename]
                     in \<lparr>result = Inr (Recording filename filepath (start_iso env)
                                        (available diskSpace)),
                         service = svc\<lparr>recordingProcess := Some (spawn_handle env),
                                       isRecording := True,
                                       currentVideoFile := Some filepath,
                                       recordingStartTime := Some (start_clock env)\<rparr>,
                         files = fs, actions = acts @ [Df, SpawnFfmpeg filepath]\<rparr>))))"

text \<open>The \<open>error\<close> and \<open>exit\<close> handlers that \<open>startRecording\<close> puts on the process.\<close>

definition recording_error_handler :: "capture_service \<Rightarrow> capture_service" where
  "recording_error_handler svc = svc\<lparr>isRecording := False, recordingProcess := None\<rparr>"

definition recording_exit_handler :: "capture_service \<Rightarrow> capture_service" where
  "recording_exit_handler svc =
     (if isRecording svc then svc\<lparr>isRecording := False, recordingProcess := None\<rparr> else svc)"

subsection \<open>Stopping a recording\<close>

text \<open>
  The recording process as \<open>stopRecording\<close> meets it: whether its standard input takes
  the \<open>q\<close>, and how long after the \<open>q\<close> and after a \<open>SIGTERM\<close> it exits, \<open>None\<close> when
  it does not react to that signal. The standard input is \<open>Broken\<close> when it still
  reports itself writable although the pipe is closed: the write is accepted and fails
  afterwards with an \<open>error\<close> event on the stream. The stream has no listener for it,
  so the error is uncaught and ends the server process.
\<close>

datatype stdin_state = Writable | Broken | NotWritable | WriteThrows

record capture_process =
  stdin :: stdin_state
  quit_latency :: "int option"
  term_latency :: "int option"

text \<open>
  The reading of the clock at the call, the process, the size the output file has at
  each \<open>stat\<close> (\<open>None\<close> while it does not exist), and the clock text at the end.
\<close>

record stop_env =
  stop_clock :: int
  process :: capture_process
  stats :: "nat \<Rightarrow> nat option"
  stop_iso :: string

text \<open>The success object: \<open>filename\<close>, \<open>path\<close>, \<open>size\<close>, \<open>duration\<close>, \<open>endTime\<close>.\<close>

datatype video = Video string string nat int string

text \<open>
  \<open>settled\<close> is how the promise of \<open>stopRecording\<close> ends, \<open>None\<close> when it never does;
  \<open>settled_at\<close> and \<open>exited_at\<close> count from the call; \<open>service_at_exit\<close> is the state
  right after the synchronous part of the exit handler; \<open>timeline\<close> lists the actions
  with their times.
\<close>

record stop_outcome =
  settled :: "(capture_error + video) option"
  settled_at :: "int option"
  exited_at :: "int option"
  service_at_exit :: "capture_service option"
  stop_service :: capture_service
  timeline :: "(int \<times> io) list"

definition graceful_timeout :: int where
  "graceful_timeout = 5000"

definition sync_wait :: int where
  "sync_wait = 500"

definition stat_retry_wait :: int where
  "stat_retry_wait = 300"

text \<open>The last statement of the promise executor: what is sent at once.\<close>

definition request_stop :: "capture_process \<Rightarrow> io list \<times> int option" where
  "request_stop p =
     (case stdin p of
        Writable \<Rightarrow> ([StdinWrite ''q'', StdinEnd], quit_latency p)
      | Broken \<Rightarrow> ([StdinWrite ''q'', StdinEnd, Uncaught ''write EPIPE''], None)
      | NotWritable \<Rightarrow> ([KillTerm], term_latency p)
      | WriteThrows \<Rightarrow> ([KillTerm], term_latency p))"

definition earliest :: "int option \<Rightarrow> int option \<Rightarrow> int option" where
  "earliest a b =
     (case (a, b) of
        (Some x, Some y) \<Rightarrow> Some (min x y)
      | (Some x, None) \<Rightarrow> Some x
      | (None, b) \<Rightarrow> b)"

text \<open>
  The race between the exit of the process and the five-second timeout: the actions
  with their times, and the time of the exit if there is one. After an uncaught error
  there is no server left to see a timeout or an exit.
\<close>

definition await_exit :: "capture_process \<Rightarrow> (int \<times> io) list \<times> int option" where
  "await_exit p =
     (let (acts, e0) = request_stop p;
          sent = map (Pair 0) acts
      in if stdin p = Broken then (sent, None)
         else if (case e0 of Some t \<Rightarrow> t < graceful_timeout | None \<Rightarrow> False)
         then (sent, e0)
         else (sent @ [(graceful_timeout, KillTerm)],
               earliest e0 (map_option ((+) graceful_timeout) (term_latency p))))"

text \<open>
  The retry loop of the exit handler from index \<open>i\<close> on, entered at time \<open>now\<close>:
  the size found, if any, the time at which the loop is left, and the actions with
  their times. A \<open>stat\<close> of the path \<open>null\<close> throws, as a \<open>stat\<close> of a missing file does.
\<close>

function verify_from ::
  "string option \<Rightarrow> (nat \<Rightarrow> nat option) \<Rightarrow> int \<Rightarrow> nat
     \<Rightarrow> nat option \<times> int \<times> (int \<times> io) list"
where
  "verify_from filepath sizes now i =
     (if i < 3 then
        (let looked = (case filepath of Some f \<Rightarrow> [(now, Stat f)] | None \<Rightarrow> []);
             seen = (case filepath of Some f \<Rightarrow> sizes i | None \<Rightarrow> None)
         in if (case seen of Some sz \<Rightarrow> sz > 0 | None \<Rightarrow> False)
            then (seen, now, looked)
            else
              (let (r, done, acts) =
                     verify_from filepath sizes (now + stat_retry_wait) (Suc i)
               in (r, done, looked @ (now, Sleep stat_retry_wait) # acts)))
      else (None, now, []))"
  by pat_completeness auto
termination
  by (relation "measure (\<lambda>(filepath, sizes, now, i). 3 - i)") auto

text \<open>One round of the retry loop, by what the \<open>stat\<close> of that round sees.\<close>

definition seen_nonempty :: "string option \<Rightarrow> (nat \<Rightarrow> nat option) \<Rightarrow> nat \<Rightarrow> bool" where
  "seen_nonempty filepath sizes i \<longleftrightarrow>
     (case filepath of Some f \<Rightarrow> (case sizes i of Some sz \<Rightarrow> sz > 0 | None \<Rightarrow> False)
      | None \<Rightarrow> False)"

fun is_stat :: "io \<Rightarrow> bool" where
  "is_stat (Stat f) = True"
| "is_stat _ = False"

definition basename :: "string \<Rightarrow> string" where
  "basename p = last (split_path p)"

definition stopRecording :: "stop_env \<Rightarrow> capture_service \<Rightarrow> stop_outcome" where
  "stopRecording env svc =
     (if \<not> isRecording svc \<or> recordingProcess svc = None
      then \<lparr>settled = Some (Inl NotRecording), settled_at = Some 0, exited_at = None,
            service_at_exit = None, stop_service = svc, timeline = []\<rparr>
      else
        (let filepath = currentVideoFile svc;
             duration = (stop_clock env
                           - (case recordingStartTime svc of Some t \<Rightarrow> t | None \<Rightarrow> 0)) div 1000;
             (sent, exit_time) = await_exit (process env)
         in case exit_time of
              None \<Rightarrow>
                \<lparr>settled = None, settled_at = None, exited_at = None,
                 service_at_exit = None, stop_service = svc, timeline = sent\<rparr>
            | Some t \<Rightarrow>
                (let svc1 = recording_exit_handler svc;
                     svc2 = svc1\<lparr>isRecording := False, recordingProcess := None\<rparr>;
                     (found, finish, acts) =
                       verify_from filepath (stats env) (t + sync_wait) 0
                 in \<lparr>settled =
                       Some (case (found, filepath) of
                               (Some sz, Some f) \<Rightarrow>
                                 Inr (Video (basename f) f sz duration (stop_iso env))
                             | _ \<Rightarrow> Inl VerificationFailed),
                     settled_at = Some finish, exited_at = Some t,
                     service_at_exit = Some svc2, stop_service = svc2,
                     timeline = sent @ [(t, Sleep sync_wait)] @ acts\<rparr>)))"

text \<open>\<open>getRecordingStatus\<close>: idle, or \<open>filename\<close>, \<open>duration\<close> and the start time.\<close>

definition getRecordingStatus :: "int \<Rightarrow> capture_service \<Rightarrow> (string \<times> int \<times> int) option" where
  "getRecordingStatus now svc =
     (if \<not> isRecording svc then None
      else (case (currentVideoFile svc, recordingStartTime svc) of
              (Some f, Some t) \<Rightarrow> Some (basename f, (now - t) div 1000, t)
            | _ \<Rightarrow> None))"

subsection \<open>Files by name\<close>

definition getFilePath :: "string \<Rightarrow> string \<Rightarrow> string option" where
  "getFilePath dirname filename =
     (if startsWith filename ''photo_'' then Some (path_join [PHOTOS_DIR dirname, filename])
      else if startsWith filename ''video_'' then Some (path_join [VIDEOS_DIR dirname, filename])
      else None)"

text \<open>The success object carries the \<open>filename\<close>.\<close>

datatype deleted = Deleted string

definition deleteCapture ::
  "string \<Rightarrow> string \<Rightarrow> capture_service \<Rightarrow> filesystem \<Rightarrow> deleted outcome"
where
  "deleteCapture dirname filename svc fs =
     (case getFilePath dirname filename of
        None \<Rightarrow> \<lparr>result = Inl InvalidFilename, service = svc, files = fs, actions = []\<rparr>
      | Some filepath \<Rightarrow>
          (case fs filepath of
             None \<Rightarrow>
               \<lparr>result = Inl FileNotFound, service = svc, files = fs,
                actions = [Access filepath]\<rparr>
           | Some sz \<Rightarrow>
               \<lparr>result = Inr (Deleted filename), service = svc, files = fs(filepath := None),
                actions = [Access filepath, Unlink filepath]\<rparr>))"

subsection \<open>Concrete sessions and environments\<close>

definition module_dir :: string where
  "module_dir = ''/home/pi/ChadJaew2/src/camera''"

definition recording_service :: capture_service where
  "recording_service =
     \<lparr>recordingProcess = Some 7, isRecording = True,
      currentVideoFile = Some ''/home/pi/ChadJaew2/captures/videos/video_2024-05-06T07-08-09.mp4'',
      recordingStartTime = Some 1000\<rparr>"

definition stream_up :: "nat \<Rightarrow> probe" where
  "stream_up attempt = Responded (Some [\<lparr>name = ''telescope'', ready = True\<rparr>])"

definition stream_starting :: "nat \<Rightarrow> probe" where
  "stream_starting attempt =
     (if attempt = 1 then RequestError
      else if attempt = 2 then Responded (Some [\<lparr>name = ''telescope'', ready = False\<rparr>])
      else Responded None)"

definition photo_attempt :: photo_env where
  "photo_attempt =
     \<lparr>photo_now = ''2024-05-06T07:08:09.123Z'', photo_probes = stream_starting,
      ffmpeg_exit = ExecOk, ffmpeg_wrote = Some 20480,
      photo_done = ''2024-05-06T07:08:12.456Z''\<rparr>"

definition start_attempt :: start_env where
  "start_attempt =
     \<lparr>start_probes = stream_up, start_df = DfFailed ''spawn /bin/sh EAGAIN'',
      start_now = ''2024-05-06T07:08:09.123Z'', spawn_handle = 8, start_clock = 5000,
      start_iso = ''2024-05-06T07:08:09.200Z''\<rparr>"

text \<open>A process that reacts to nothing, and one that ignores \<open>q\<close> but dies on \<open>SIGTERM\<close>.\<close>

definition never_found :: "nat \<Rightarrow> nat option" where
  "never_found i = None"





definition empty_file_stop :: stop_env where
  "empty_file_stop =
     \<lparr>stop_clock = 61500,
      process = \<lparr>stdin = Writable, quit_latency = Some 120, term_latency = Some 0\<rparr>,
      stats = never_found, stop_iso = ''2024-05-06T07:09:15.000Z''\<rparr>"

section \<open>Properties of the supervisor\<close>

subsection \<open>Auxiliary facts\<close>

lemma restart_delays_append:
  "restart_delays (xs @ ys) = restart_delays xs @ restart_delays ys"
  by (induction xs rule: restart_delays.induct) simp_all

lemma take_timer_last:
  "cb \<notin> snd ` set ts \<Longrightarrow> due \<le> now \<Longrightarrow>
   take_timer cb now (ts @ [(due, cb)]) = Some ts"
  by (induction ts) auto

lemma take_timer_none:
  "cb \<notin> snd ` set ts \<Longrightarrow> take_timer cb now ts = None"
  by (induction ts) auto

lemma backoff_Suc:
  assumes "initialDelay cfg \<le> maxDelay cfg"
  shows "min (backoff cfg k * 2) (maxDelay cfg) = backoff cfg (Suc k)"
proof -
  define x where "x = initialDelay cfg * 2 ^ k"
  have neg: "x \<le> initialDelay cfg" if "initialDelay cfg < 0"
    using mult_left_mono_neg[of 1 "2 ^ k" "initialDelay cfg"] that by (simp add: x_def)
  have "backoff cfg k = min x (maxDelay cfg)"
    "backoff cfg (Suc k) = min (x * 2) (maxDelay cfg)"
    by (simp_all add: backoff_def x_def)
  then show ?thesis using assms neg by (cases "initialDelay cfg < 0") (auto simp: min_def)
qed

lemma tracking_step:
  assumes c1: "initialDelay cfg \<le> maxDelay cfg"
    and t: "tracking cfg k s" and st: "step cfg e s = Some s'"
    and nr: "e = TimerFires StabilityCheck \<longrightarrow> \<not> stability_passes cfg s"
  shows "tracking cfg (k + nonzero_exits [e]) s'
       \<and> restart_delays (effects s') =
           restart_delays (effects s)
             @ map (backoff cfg) [min k (nat (maxRestarts cfg))
                                  ..<min (k + nonzero_exits [e]) (nat (maxRestarts cfg))]"
proof (cases e)
  case (ProcessExit p code)
  define s0 where
    "s0 = broadcast_event (StreamStopped code) (s\<lparr>alive := removeAll p (alive s)\<rparr>)"
  have s0: "restartState s0 = restartState s"
    "restart_delays (effects s0) = restart_delays (effects s)"
    by (simp_all add: s0_def broadcast_event_def restart_delays_append)
  have s': "s' = (if code \<noteq> Some 0 then scheduleRestart cfg s0 else s0)"
    using ProcessExit st by (auto simp: on_exit_def s0_def Let_def split: if_splits)
  consider "code = Some 0" | "code \<noteq> Some 0" "int k < maxRestarts cfg"
    | "code \<noteq> Some 0" "maxRestarts cfg \<le> int k" by linarith
  then show ?thesis
  proof cases
    case 1
    with s' s0 t ProcessExit show ?thesis by (simp add: tracking_def)
  next
    case 2
    then have m: "min k (nat (maxRestarts cfg)) = k"
      "min (Suc k) (nat (maxRestarts cfg)) = Suc k" by simp_all
    from 2 s' s0 t ProcessExit backoff_Suc[OF c1, of k] show ?thesis
      by (simp add: tracking_def m scheduleRestart_def setTimeout_def Let_def
          restart_delays_append)
  next
    case 3
    then have m: "min k (nat (maxRestarts cfg)) = nat (maxRestarts cfg)"
      "min (Suc k) (nat (maxRestarts cfg)) = nat (maxRestarts cfg)" by simp_all
    from 3 s' s0 t ProcessExit show ?thesis
      by (simp add: tracking_def m scheduleRestart_def broadcast_event_def Let_def
          restart_delays_append)
  qed
next
  case (ProcessError p msg)
  with t st show ?thesis
    by (auto simp: tracking_def on_error_def broadcast_event_def restart_delays_append
        split: if_splits)
next
  case (TimerFires cb)
  show ?thesis
  proof (cases cb)
    case StartMediaMTX
    with TimerFires t st show ?thesis
      by (auto simp: tracking_def startMediaMTX_def setTimeout_def Let_def
          restart_delays_append split: option.splits)
  next
    case StabilityCheck
    with TimerFires t st nr show ?thesis
      by (auto simp: tracking_def stability_check_def stability_passes_def Let_def
          split: option.splits if_splits)
  qed
next
  case (Elapse d)
  with t st show ?thesis by (auto simp: tracking_def split: if_splits)
next
  case StopCalled
  with t st show ?thesis
    by (auto simp: tracking_def stopMediaMTX_def restart_delays_append split: option.splits)
qed

lemma nonzero_exits_Cons: "nonzero_exits (e # es) = nonzero_exits [e] + nonzero_exits es"
  by (cases e) auto

lemma map_upt_join:
  "a \<le> b \<Longrightarrow> b \<le> c \<Longrightarrow> map f [a..<b] @ map f [b..<c] = map f [a..<c]"
  by (metis le_Suc_ex map_append upt_add_eq_append)

lemma tracking_run:
  assumes c1: "initialDelay cfg \<le> maxDelay cfg"
  shows "tracking cfg k s \<Longrightarrow> run cfg es s = Some s' \<Longrightarrow> reset_free cfg es s \<Longrightarrow>
         tracking cfg (k + nonzero_exits es) s'
       \<and> restart_delays (effects s') =
           restart_delays (effects s)
             @ map (backoff cfg) [min k (nat (maxRestarts cfg))
                                  ..<min (k + nonzero_exits es) (nat (maxRestarts cfg))]"
proof (induction es arbitrary: k s)
  case Nil
  then show ?case by simp
next
  case (Cons e es)
  from Cons.prems(2) obtain s1 where s1: "step cfg e s = Some s1" and r: "run cfg es s1 = Some s'"
    by (auto split: option.splits)
  from Cons.prems(3) s1 have nr: "e = TimerFires StabilityCheck \<longrightarrow> \<not> stability_passes cfg s"
    and rf: "reset_free cfg es s1" by (auto split: if_splits)
  let ?M = "nat (maxRestarts cfg)"
  let ?k1 = "k + nonzero_exits [e]"
  from tracking_step[OF c1 Cons.prems(1) s1 nr]
  have t1: "tracking cfg ?k1 s1"
    and d1: "restart_delays (effects s1)
             = restart_delays (effects s) @ map (backoff cfg) [min k ?M..<min ?k1 ?M]"
    by auto
  from Cons.IH[OF t1 r rf]
  have t2: "tracking cfg (?k1 + nonzero_exits es) s'"
    and d2: "restart_delays (effects s')
             = restart_delays (effects s1)
                 @ map (backoff cfg) [min ?k1 ?M..<min (?k1 + nonzero_exits es) ?M]"
    by auto
  have k: "?k1 + nonzero_exits es = k + nonzero_exits (e # es)"
    using nonzero_exits_Cons[of e es] by simp
  have j: "map (backoff cfg) [min k ?M..<min ?k1 ?M]
          @ map (backoff cfg) [min ?k1 ?M..<min (?k1 + nonzero_exits es) ?M]
        = map (backoff cfg) [min k ?M..<min (?k1 + nonzero_exits es) ?M]"
    by (rule map_upt_join) simp_all
  have "restart_delays (effects s')
        = restart_delays (effects s)
            @ (map (backoff cfg) [min k ?M..<min ?k1 ?M]
                 @ map (backoff cfg) [min ?k1 ?M..<min (?k1 + nonzero_exits es) ?M])"
    unfolding d2 d1 by simp
  then have d: "restart_delays (effects s')
        = restart_delays (effects s)
            @ map (backoff cfg) [min k ?M..<min (?k1 + nonzero_exits es) ?M]"
    unfolding j .
  from t2 d show ?case unfolding k by blast
qed

subsection \<open>Exponential backoff\<close>

text \<open>
  C2, as the code has it. Let \<open>initialDelay \<le> maxDelay\<close>, and take any run of the
  supervisor that begins with the restart state fresh (count 0, delay \<open>initialDelay\<close>,
  as at the start and after every reset) and in which no stability timer resets it.
  Count the nonzero exits of the run from 0 (an exit code counts as nonzero when it is
  not 0, \<open>null\<close> included). Then the restarts scheduled in the run are those of the
  exits number \<open>n < maxRestarts\<close>, in order, and exit number \<open>n\<close> schedules its restart
  after \<open>min (initialDelay * 2 ^ n) maxDelay\<close>; the exits from number \<open>maxRestarts\<close> on
  schedule nothing. Whatever else happens between the exits (time passing, timers
  firing, errors, a stop) does not change the delays.
\<close>

theorem restart_delay_backoff:
  assumes c1: "initialDelay cfg \<le> maxDelay cfg"
    and fresh: "count (restartState s0) = 0" "delay (restartState s0) = initialDelay cfg"
    and r: "run cfg es s0 = Some s"
    and nr: "reset_free cfg es s0"
  shows "restart_delays (effects s) =
           restart_delays (effects s0)
             @ map (\<lambda>n. min (initialDelay cfg * 2 ^ n) (maxDelay cfg))
                 [0..<min (nonzero_exits es) (nat (maxRestarts cfg))]
       \<and> count (restartState s) = int (nonzero_exits es)"
proof -
  have "tracking cfg 0 s0" using fresh c1 by (simp add: tracking_def backoff_def)
  from tracking_run[OF c1 this r nr] show ?thesis
    by (simp add: tracking_def backoff_def[abs_def])
qed

text \<open>
  With the configured constants: three nonzero exits, the second by a signal, with a
  stability timer firing before the third and finding the process too young.
\<close>

theorem restart_delay_backoff_witness:
  "initialDelay MEDIAMTX_RESTART \<le> maxDelay MEDIAMTX_RESTART
   \<and> count (restartState (boot MEDIAMTX_RESTART 1000)) = 0
   \<and> delay (restartState (boot MEDIAMTX_RESTART 1000)) = initialDelay MEDIAMTX_RESTART
   \<and> run MEDIAMTX_RESTART backoff_trace (boot MEDIAMTX_RESTART 1000) = Some backoff_state
   \<and> reset_free MEDIAMTX_RESTART backoff_trace (boot MEDIAMTX_RESTART 1000)
   \<and> nonzero_exits backoff_trace = 3
   \<and> restart_delays (effects backoff_state) = [2000, 4000, 8000]"
proof -
  have c: "initialDelay MEDIAMTX_RESTART \<le> maxDelay MEDIAMTX_RESTART"
    by (simp add: MEDIAMTX_RESTART_def)
  have f: "count (restartState (boot MEDIAMTX_RESTART 1000)) = 0"
    "delay (restartState (boot MEDIAMTX_RESTART 1000)) = initialDelay MEDIAMTX_RESTART"
    by code_simp+
  have r: "run MEDIAMTX_RESTART backoff_trace (boot MEDIAMTX_RESTART 1000) = Some backoff_state"
    by code_simp
  have n: "reset_free MEDIAMTX_RESTART backoff_trace (boot MEDIAMTX_RESTART 1000)"
    by code_simp
  have k: "nonzero_exits backoff_trace = 3" by code_simp
  have d: "restart_delays (effects backoff_state) = [2000, 4000, 8000]" by code_simp
  from restart_delay_backoff[OF c f r n] c f r n k d show ?thesis by simp
qed

text \<open>
  The claim as the specification words it, for all \<open>n \<le> maxRestarts\<close>, fails at
  \<open>n = maxRestarts = 10\<close>: in the crash loop of \<open>crash_trace\<close>, where no stability
  timer fires at all, eleven consecutive nonzero exits schedule ten restarts, and the
  eleventh exit, number 10, schedules nothing.
\<close>

theorem restart_delay_backoff_counterexample:
  "run MEDIAMTX_RESTART crash_trace (boot MEDIAMTX_RESTART 1000) = Some gave_up_state
   \<and> reset_free MEDIAMTX_RESTART crash_trace (boot MEDIAMTX_RESTART 1000)
   \<and> nonzero_exits crash_trace = 11
   \<and> restart_delays (effects gave_up_state)
       = [2000, 4000, 8000, 16000, 32000, 60000, 60000, 60000, 60000, 60000]"
  by code_simp

text \<open>The end-to-end sequence of the configured constants: six exits, six delays.\<close>

lemma six_consecutive_exits:
  "nonzero_exits (take 16 crash_trace) = 6
   \<and> map_option (\<lambda>s. restart_delays (effects s))
       (run MEDIAMTX_RESTART (take 16 crash_trace) (boot MEDIAMTX_RESTART 1000))
     = Some [2000, 4000, 8000, 16000, 32000, 60000]"
  by code_simp

text \<open>
  A reset between two exits starts the sequence again: here the second of two
  consecutive nonzero exits is scheduled after 2000 ms, not 4000 ms.
\<close>

lemma reset_between_exits:
  "map_option (\<lambda>s. restart_delays (effects s))
     (run MEDIAMTX_RESTART
        [Elapse 1000, ProcessExit 0 (Some 1), Elapse 2000, TimerFires StartMediaMTX,
         Elapse 297000, TimerFires StabilityCheck, Elapse 3000, TimerFires StabilityCheck,
         Elapse 1000, ProcessExit 1 (Some 1)]
        (boot MEDIAMTX_RESTART 1000))
   = Some [2000, 2000]"
  by code_simp

lemma spawns_append: "spawns (xs @ ys) = spawns xs @ spawns ys"
  by (induction xs rule: spawns.induct) simp_all

lemma error_messages_append:
  "error_messages (xs @ ys) = error_messages xs @ error_messages ys"
  by (induction xs rule: error_messages.induct) simp_all

lemma take_timer_pending:
  "take_timer cb now ts = Some ts' \<Longrightarrow>
   pending_restarts ts = pending_restarts ts' + (if cb = StartMediaMTX then 1 else 0)"
  by (induction ts arbitrary: ts') (auto simp: pending_restarts_def split: if_splits)

lemma scheduleRestart_gives_up:
  "maxRestarts cfg \<le> count (restartState s) \<Longrightarrow>
   scheduleRestart cfg s =
     s\<lparr>restartState := (restartState s)\<lparr>count := count (restartState s) + 1\<rparr>,
       effects := effects s @ [give_up]\<rparr>"
  by (simp add: scheduleRestart_def broadcast_event_def give_up_def Let_def)

lemma scheduleRestart_schedules:
  "count (restartState s) < maxRestarts cfg \<Longrightarrow>
   scheduleRestart cfg s =
     s\<lparr>restartState := (restartState s)
          \<lparr>count := count (restartState s) + 1,
           delay := min (delay (restartState s) * 2) (maxDelay cfg)\<rparr>,
       timers := timers s @ [(clock s + delay (restartState s), StartMediaMTX)],
       effects := effects s @ [SetTimeout StartMediaMTX (delay (restartState s))]\<rparr>"
  by (simp add: scheduleRestart_def setTimeout_def Let_def)

subsection \<open>Giving up\<close>

lemma sup_inv_boot: "0 \<le> maxRestarts cfg \<Longrightarrow> sup_inv cfg (boot cfg t0)"
  by (simp add: sup_inv_def boot_def initial_def startMediaMTX_def setTimeout_def Let_def
      pending_restarts_def give_up_def)

lemma terminal_step:
  assumes t: "terminal s" and st: "step cfg e s = Some s'"
    and ok: "give_up_message \<notin> set (error_messages [e])"
  shows "terminal s' \<and> restart_delays (effects s') = restart_delays (effects s)
         \<and> spawns (effects s') = spawns (effects s)"
proof (cases e)
  case (ProcessExit p code)
  with t st show ?thesis by (simp add: terminal_def)
next
  case (ProcessError p msg)
  with t st ok show ?thesis
    by (auto simp: terminal_def on_error_def broadcast_event_def give_up_def
        restart_delays_append spawns_append split: if_splits)
next
  case (TimerFires cb)
  show ?thesis
  proof (cases cb)
    case StartMediaMTX
    with TimerFires t st take_timer_pending[of StartMediaMTX "clock s" "timers s"]
    show ?thesis by (auto simp: terminal_def split: option.splits)
  next
    case StabilityCheck
    with TimerFires t st take_timer_pending[of StabilityCheck "clock s" "timers s"]
    show ?thesis
      by (auto simp: terminal_def stability_check_def resetRestartState_def Let_def
          split: option.splits if_splits)
  qed
next
  case (Elapse d)
  with t st show ?thesis by (auto simp: terminal_def split: if_splits)
next
  case StopCalled
  with t st show ?thesis
    by (auto simp: terminal_def stopMediaMTX_def give_up_def restart_delays_append
        spawns_append split: option.splits)
qed

lemma terminal_run:
  "terminal s \<Longrightarrow> run cfg es s = Some s' \<Longrightarrow> give_up_message \<notin> set (error_messages es) \<Longrightarrow>
   terminal s' \<and> restart_delays (effects s') = restart_delays (effects s)
     \<and> spawns (effects s') = spawns (effects s)"
proof (induction es arbitrary: s)
  case Nil
  then show ?case by simp
next
  case (Cons e es)
  from Cons.prems(2) obtain s1 where s1: "step cfg e s = Some s1" and r: "run cfg es s1 = Some s'"
    by (auto split: option.splits)
  from Cons.prems(3) have ok1: "give_up_message \<notin> set (error_messages [e])"
    and ok2: "give_up_message \<notin> set (error_messages es)"
    using error_messages_append[of "[e]" es] by auto
  from terminal_step[OF Cons.prems(1) s1 ok1] Cons.IH[OF _ r ok2]
  show ?case by simp
qed

lemma sup_inv_step:
  assumes i: "sup_inv cfg s" and st: "step cfg e s = Some s'"
    and ok: "give_up_message \<notin> set (error_messages [e])" and m: "0 \<le> maxRestarts cfg"
  shows "sup_inv cfg s'"
proof (cases "terminal s")
  case True
  from terminal_step[OF True st ok] show ?thesis by (simp add: sup_inv_def)
next
  case False
  with i have g: "count_list (effects s) give_up = 0"
    and l: "length (alive s) + pending_restarts (timers s) \<le> 1"
    and c: "count (restartState s) \<le> maxRestarts cfg"
    by (auto simp: sup_inv_def)
  show ?thesis
  proof (cases e)
    case (ProcessExit p code)
    with st have p: "p \<in> set (alive s)" by (auto split: if_splits)
    with l have a: "alive s = [p]" "pending_restarts (timers s) = 0"
      by (cases "alive s"; auto)+
    define s0 where
      "s0 = broadcast_event (StreamStopped code) (s\<lparr>alive := removeAll p (alive s)\<rparr>)"
    have s0: "count_list (effects s0) give_up = 0" "alive s0 = []" "timers s0 = timers s"
      "restartState s0 = restartState s"
      using g a by (simp_all add: s0_def broadcast_event_def give_up_def)
    have s': "s' = (if code \<noteq> Some 0 then scheduleRestart cfg s0 else s0)"
      using ProcessExit st p by (auto simp: on_exit_def s0_def Let_def)
    consider "code = Some 0" | "code \<noteq> Some 0" "count (restartState s0) < maxRestarts cfg"
      | "code \<noteq> Some 0" "maxRestarts cfg \<le> count (restartState s0)" by linarith
    then show ?thesis
    proof cases
      case 1
      with s' s0 a c show ?thesis by (simp add: sup_inv_def)
    next
      case 2
      with s' s0 a c show ?thesis
        by (simp add: sup_inv_def scheduleRestart_schedules give_up_def pending_restarts_def)
    next
      case 3
      with s' s0 a c show ?thesis
        by (simp add: sup_inv_def terminal_def scheduleRestart_gives_up)
    qed
  next
    case (ProcessError p msg)
    with st ok g l c show ?thesis
      by (auto simp: sup_inv_def on_error_def broadcast_event_def give_up_def split: if_splits)
  next
    case (TimerFires cb)
    show ?thesis
    proof (cases cb)
      case StartMediaMTX
      with TimerFires st g l c take_timer_pending[of StartMediaMTX "clock s" "timers s"]
      show ?thesis
        by (auto simp: sup_inv_def startMediaMTX_def setTimeout_def Let_def give_up_def
            pending_restarts_def split: option.splits)
    next
      case StabilityCheck
      with TimerFires st g l c m take_timer_pending[of StabilityCheck "clock s" "timers s"]
      show ?thesis
        by (auto simp: sup_inv_def stability_check_def resetRestartState_def Let_def
            split: option.splits if_splits)
    qed
  next
    case (Elapse d)
    with st g l c show ?thesis by (auto simp: sup_inv_def split: if_splits)
  next
    case StopCalled
    with st g l c show ?thesis
      by (auto simp: sup_inv_def stopMediaMTX_def give_up_def split: option.splits)
  qed
qed

lemma sup_inv_run:
  "sup_inv cfg s \<Longrightarrow> run cfg es s = Some s' \<Longrightarrow> give_up_message \<notin> set (error_messages es) \<Longrightarrow>
   0 \<le> maxRestarts cfg \<Longrightarrow> sup_inv cfg s'"
proof (induction es arbitrary: s)
  case Nil
  then show ?case by simp
next
  case (Cons e es)
  from Cons.prems(2) obtain s1 where s1: "step cfg e s = Some s1" and r: "run cfg es s1 = Some s'"
    by (auto split: option.splits)
  from Cons.prems(3) have ok1: "give_up_message \<notin> set (error_messages [e])"
    and ok2: "give_up_message \<notin> set (error_messages es)"
    using error_messages_append[of "[e]" es] by auto
  from sup_inv_step[OF Cons.prems(1) s1 ok1 Cons.prems(4)] Cons.IH[OF _ r ok2 Cons.prems(4)]
  show ?case by simp
qed

lemma crash_trace_gives_up:
  "run MEDIAMTX_RESTART crash_trace (boot MEDIAMTX_RESTART 1000) = Some gave_up_state"
  by code_simp

text \<open>
  C5. Take any run of the supervisor from its start in which the runtime delivers no
  \<open>error\<close> event that carries the text of the permanent-failure event, and any moment
  of it at which \<open>RestartState.count\<close> exceeds \<open>maxRestarts\<close> (\<open>maxRestarts\<close> not
  negative). Whatever happens afterwards, the permanent-failure event has been emitted
  exactly once, no restart is scheduled and no process is spawned after that moment, no
  media server is running and no restart is pending. And \<open>scheduleRestart\<close> itself, once
  the counter has reached the cap, sets no timer and only counts and emits the event.
\<close>

theorem give_up_is_terminal:
  assumes m: "0 \<le> maxRestarts cfg"
    and r1: "run cfg es1 (boot cfg t0) = Some s1"
    and over: "count (restartState s1) > maxRestarts cfg"
    and r2: "run cfg es2 s1 = Some s2"
    and ok: "give_up_message \<notin> set (error_messages (es1 @ es2))"
  shows "count_list (effects s2) give_up = 1
       \<and> restart_delays (effects s2) = restart_delays (effects s1)
       \<and> spawns (effects s2) = spawns (effects s1)
       \<and> alive s2 = [] \<and> pending_restarts (timers s2) = 0
       \<and> timers (scheduleRestart cfg s1) = timers s1
       \<and> effects (scheduleRestart cfg s1) = effects s1 @ [give_up]"
proof -
  from ok have ok1: "give_up_message \<notin> set (error_messages es1)"
    and ok2: "give_up_message \<notin> set (error_messages es2)"
    by (auto simp: error_messages_append)
  from sup_inv_run[OF sup_inv_boot[OF m] r1 ok1 m] over have "terminal s1"
    by (auto simp: sup_inv_def)
  from terminal_run[OF this r2 ok2] over show ?thesis
    by (simp add: terminal_def scheduleRestart_gives_up)
qed

text \<open>
  The eleven crashes of \<open>crash_trace\<close> bring the counter to 11; five minutes later a
  stability timer fires, an \<open>error\<close> event arrives and \<open>stopMediaMTX\<close> is called.
\<close>

theorem give_up_is_terminal_witness:
  "0 \<le> maxRestarts MEDIAMTX_RESTART
   \<and> run MEDIAMTX_RESTART crash_trace (boot MEDIAMTX_RESTART 1000) = Some gave_up_state
   \<and> count (restartState gave_up_state) > maxRestarts MEDIAMTX_RESTART
   \<and> run MEDIAMTX_RESTART
       [Elapse 300000, TimerFires StabilityCheck, ProcessError 10 ''kill EPERM'', StopCalled]
       gave_up_state
     = Some (gave_up_state
        \<lparr>restartState := \<lparr>count = 0, delay = 2000, lastStableTime = None\<rparr>,
         mediamtxProcess := None, clock := 663000, timers := tl (timers gave_up_state),
         effects := effects gave_up_state @ [Broadcast (StreamError ''kill EPERM''), Kill 10]\<rparr>)
   \<and> give_up_message \<notin> set (error_messages (crash_trace @
       [Elapse 300000, TimerFires StabilityCheck, ProcessError 10 ''kill EPERM'', StopCalled]))
   \<and> count_list (effects gave_up_state @ [Broadcast (StreamError ''kill EPERM''), Kill 10])
       give_up = 1
   \<and> effects (scheduleRestart MEDIAMTX_RESTART gave_up_state)
       = effects gave_up_state @ [give_up]"
proof -
  let ?es2 = "[Elapse 300000, TimerFires StabilityCheck, ProcessError 10 ''kill EPERM'',
               StopCalled]"
  let ?s2 = "gave_up_state
        \<lparr>restartState := \<lparr>count = 0, delay = 2000, lastStableTime = None\<rparr>,
         mediamtxProcess := None, clock := 663000, timers := tl (timers gave_up_state),
         effects := effects gave_up_state @ [Broadcast (StreamError ''kill EPERM''), Kill 10]\<rparr>"
  have m: "0 \<le> maxRestarts MEDIAMTX_RESTART" by (simp add: MEDIAMTX_RESTART_def)
  have r1: "run MEDIAMTX_RESTART crash_trace (boot MEDIAMTX_RESTART 1000) = Some gave_up_state"
    by code_simp
  have over: "count (restartState gave_up_state) > maxRestarts MEDIAMTX_RESTART"
    by (simp add: gave_up_state_def MEDIAMTX_RESTART_def)
  have r2: "run MEDIAMTX_RESTART ?es2 gave_up_state = Some ?s2"
    by code_simp
  have ok: "give_up_message \<notin> set (error_messages (crash_trace @ ?es2))"
    by code_simp
  from give_up_is_terminal[OF m r1 over r2 ok] m r1 over r2 ok show ?thesis
    by simp
qed

subsection \<open>Stopping while a restart is pending\<close>

lemma restart_pending_reached:
  "run MEDIAMTX_RESTART [ProcessExit 0 (Some 1), Elapse 2000] (boot MEDIAMTX_RESTART 1000)
   = Some restart_pending"
  by code_simp

text \<open>
  C1, as the code has it. \<open>stopMediaMTX\<close> sends the termination signal to the process
  whose handle it holds, if any, and does nothing else to the outside world; it clears
  the process handle and leaves the restart state and every pending timeout in place: a scheduled restart can fire after the stop exactly when it could fire before,
  and when it fires it spawns a new media server and stores its handle.
\<close>

theorem stop_keeps_scheduled_restart:
  "mediamtxProcess (stopMediaMTX s) = None
   \<and> effects (stopMediaMTX s)
       = effects s @ (case mediamtxProcess s of Some p \<Rightarrow> [Kill p] | None \<Rightarrow> [])
   \<and> restartState (stopMediaMTX s) = restartState s
   \<and> timers (stopMediaMTX s) = timers s
   \<and> clock (stopMediaMTX s) = clock s
   \<and> ((step cfg (TimerFires StartMediaMTX) (stopMediaMTX s) = None)
        = (step cfg (TimerFires StartMediaMTX) s = None))
   \<and> (step cfg (TimerFires StartMediaMTX) (stopMediaMTX s) = Some s' \<longrightarrow>
        mediamtxProcess s' = Some (spawned s) \<and> spawned s \<in> set (alive s')
        \<and> Spawn (spawned s) \<in> set (effects s'))"
  by (auto simp: stopMediaMTX_def startMediaMTX_def setTimeout_def Let_def
      split: option.splits)

theorem stop_keeps_scheduled_restart_witness:
  "step MEDIAMTX_RESTART (TimerFires StartMediaMTX) (stopMediaMTX restart_pending)
     = Some \<lparr>restartState = \<lparr>count = 1, delay = 4000, lastStableTime = Some 3000\<rparr>,
             mediamtxProcess = Some 1, clock = 3000,
             timers = [(301000, StabilityCheck), (303000, StabilityCheck)],
             spawned = 2, alive = [1],
             effects =
               [Spawn 0, SetTimeout StabilityCheck 300000,
                Broadcast (StreamStopped (Some 1)), SetTimeout StartMediaMTX 2000,
                Kill 0, Spawn 1, SetTimeout StabilityCheck 300000]\<rparr>
   \<and> mediamtxProcess (stopMediaMTX restart_pending) = None
   \<and> effects (stopMediaMTX restart_pending) = effects restart_pending @ [Kill 0]
   \<and> spawned restart_pending = 1"
proof -
  let ?s' = "\<lparr>restartState = \<lparr>count = 1, delay = 4000, lastStableTime = Some 3000\<rparr>,
             mediamtxProcess = Some 1, clock = 3000,
             timers = [(301000, StabilityCheck), (303000, StabilityCheck)],
             spawned = 2, alive = [1],
             effects =
               [Spawn 0, SetTimeout StabilityCheck 300000,
                Broadcast (StreamStopped (Some 1)), SetTimeout StartMediaMTX 2000,
                Kill 0, Spawn 1, SetTimeout StabilityCheck 300000]\<rparr>"
  have f: "step MEDIAMTX_RESTART (TimerFires StartMediaMTX) (stopMediaMTX restart_pending)
           = Some ?s'"
    by code_simp
  from stop_keeps_scheduled_restart[of restart_pending MEDIAMTX_RESTART ?s'] f
  show ?thesis by (simp add: restart_pending_def)
qed

text \<open>
  The claim as the specification words it fails. The media server, started at time
  1000, exits with code 1 at time 1500 and its restart is set for time 3500;
  \<open>stopMediaMTX\<close> is called at time 2500; at time 3500 the timer fires and spawns
  process 1.
\<close>

theorem stop_cancels_restart_counterexample:
  "run MEDIAMTX_RESTART
     [Elapse 500, ProcessExit 0 (Some 1), Elapse 1000, StopCalled, Elapse 1000,
      TimerFires StartMediaMTX]
     (boot MEDIAMTX_RESTART 1000)
   = Some \<lparr>restartState = \<lparr>count = 1, delay = 4000, lastStableTime = Some 3500\<rparr>,
           mediamtxProcess = Some 1, clock = 3500,
           timers = [(301000, StabilityCheck), (303500, StabilityCheck)],
           spawned = 2, alive = [1],
           effects =
             [Spawn 0, SetTimeout StabilityCheck 300000,
              Broadcast (StreamStopped (Some 1)), SetTimeout StartMediaMTX 2000,
              Kill 0, Spawn 1, SetTimeout StabilityCheck 300000]\<rparr>"
  by code_simp

subsection \<open>The stability timer\<close>

text \<open>When the stability callback resets, and what the reset gives.\<close>

lemma stability_check_resets_iff:
  "stability_check cfg s =
     (if mediamtxProcess s \<noteq> None \<and>
         (\<exists>t. lastStableTime (restartState s) = Some t \<and> t \<noteq> 0 \<and> resetAfter cfg \<le> clock s - t)
      then s\<lparr>restartState := \<lparr>count = 0, delay = initialDelay cfg, lastStableTime = None\<rparr>\<rparr>
      else s)"
  by (auto simp: stability_check_def resetRestartState_def Let_def split: option.splits)

text \<open>
  A media server that stays up: if nothing but time passes between its start and the
  firing of its stability timer, the timer resets the restart state.
\<close>

lemma stable_run_resets:
  assumes "clock s \<noteq> 0" "0 \<le> resetAfter cfg" "StabilityCheck \<notin> snd ` set (timers s)"
  shows "map_option restartState
           (run cfg [Elapse (resetAfter cfg), TimerFires StabilityCheck] (startMediaMTX cfg s))
         = Some \<lparr>count = 0, delay = initialDelay cfg, lastStableTime = None\<rparr>"
proof -
  have "take_timer StabilityCheck (clock s + resetAfter cfg)
          (timers s @ [(clock s + resetAfter cfg, StabilityCheck)]) = Some (timers s)"
    using assms(3) by (simp add: take_timer_last)
  then show ?thesis using assms(1,2)
    by (simp add: startMediaMTX_def setTimeout_def Let_def stability_check_resets_iff)
qed

text \<open>
  C3 at its failing input. After \<open>clean_exit_trace\<close> no media server is running, process
  1 having exited with code 0 almost five minutes earlier, and the restart state still
  records one failure. The stability timer of process 1 then fires and resets the
  restart state: the handle of the exited process was never cleared.
\<close>

theorem stability_reset_after_exit:
  "map_option alive (run MEDIAMTX_RESTART clean_exit_trace (boot MEDIAMTX_RESTART 1000))
     = Some []
   \<and> map_option mediamtxProcess
       (run MEDIAMTX_RESTART clean_exit_trace (boot MEDIAMTX_RESTART 1000)) = Some (Some 1)
   \<and> map_option restartState
       (run MEDIAMTX_RESTART clean_exit_trace (boot MEDIAMTX_RESTART 1000))
     = Some \<lparr>count = 1, delay = 4000, lastStableTime = Some 4000\<rparr>
   \<and> map_option restartState
       (run MEDIAMTX_RESTART (clean_exit_trace @ [TimerFires StabilityCheck])
          (boot MEDIAMTX_RESTART 1000))
     = Some \<lparr>count = 0, delay = 2000, lastStableTime = None\<rparr>"
  by code_simp

section \<open>Properties of the capture service\<close>

subsection \<open>Auxiliary facts\<close>

declare checkStreamHealth_from.simps [simp del]

declare verify_from.simps [simp del]

lemma checkStreamHealth_never_ready:
  assumes "\<And>attempt. 1 \<le> attempt \<Longrightarrow> attempt \<le> 3 \<Longrightarrow> \<not> probe_ready (probes attempt)"
  shows "checkStreamHealth probes = (False, [HttpGet, Sleep 1000, HttpGet, Sleep 1000, HttpGet])"
proof -
  have p: "\<not> probe_ready (probes (Suc 0))" "\<not> probe_ready (probes (Suc (Suc 0)))"
    "\<not> probe_ready (probes (Suc (Suc (Suc 0))))"
    using assms by simp_all
  have 4: "checkStreamHealth_from (Suc (Suc (Suc (Suc 0)))) 3 1000 probes = (False, [])"
    by (subst checkStreamHealth_from.simps) simp
  have 3: "checkStreamHealth_from (Suc (Suc (Suc 0))) 3 1000 probes = (False, [HttpGet])"
    by (subst checkStreamHealth_from.simps) (simp add: p 4)
  have 2: "checkStreamHealth_from (Suc (Suc 0)) 3 1000 probes
           = (False, [HttpGet, Sleep 1000, HttpGet])"
    by (subst checkStreamHealth_from.simps) (simp add: p 3)
  have 1: "checkStreamHealth_from (Suc 0) 3 1000 probes
           = (False, [HttpGet, Sleep 1000, HttpGet, Sleep 1000, HttpGet])"
    by (subst checkStreamHealth_from.simps) (simp add: p 2)
  then show ?thesis by (simp add: checkStreamHealth_def)
qed

lemma not_ready_message_distinct:
  "error_message e = error_message StreamNotReady \<Longrightarrow> e = StreamNotReady"
  by (cases e) (auto split: option.splits)

lemma verify_from_done:
  "\<not> i < 3 \<Longrightarrow> verify_from filepath sizes now i = (None, now, [])"
  by (subst verify_from.simps) simp

lemma verify_from_round:
  "i < 3 \<Longrightarrow>
   verify_from filepath sizes now i =
     (let looked = (case filepath of Some f \<Rightarrow> [(now, Stat f)] | None \<Rightarrow> [])
      in if seen_nonempty filepath sizes i then (sizes i, now, looked)
         else (let (r, done, acts) = verify_from filepath sizes (now + stat_retry_wait) (Suc i)
               in (r, done, looked @ (now, Sleep stat_retry_wait) # acts)))"
  by (subst verify_from.simps) (auto simp: seen_nonempty_def Let_def split: option.splits)


lemma verify_from_retry:
  "i < 3 \<Longrightarrow> \<not> seen_nonempty filepath sizes i \<Longrightarrow>
   fst (verify_from filepath sizes now i)
     = fst (verify_from filepath sizes (now + stat_retry_wait) (Suc i))
   \<and> fst (snd (verify_from filepath sizes now i))
     = fst (snd (verify_from filepath sizes (now + stat_retry_wait) (Suc i)))"
  by (simp add: verify_from_round Let_def split: prod.splits)

lemma verify_from_none_found:
  assumes "\<And>i. i < 3 \<Longrightarrow> sizes i = None \<or> sizes i = Some 0"
  shows "fst (verify_from filepath sizes now 0) = None
       \<and> fst (snd (verify_from filepath sizes now 0)) = now + 3 * stat_retry_wait"
proof -
  have s: "\<not> seen_nonempty filepath sizes i" if "i < 3" for i
    using assms[OF that] by (auto simp: seen_nonempty_def split: option.splits)
  have 0: "(0::nat) < 3" and 1: "Suc 0 < 3" and 2: "Suc (Suc 0) < 3"
    and 3: "\<not> Suc (Suc (Suc 0)) < 3" by simp_all
  show ?thesis
    using verify_from_retry[OF 0 s[OF 0], of now]
      verify_from_retry[OF 1 s[OF 1], of "now + stat_retry_wait"]
      verify_from_retry[OF 2 s[OF 2], of "now + stat_retry_wait + stat_retry_wait"]
      verify_from_done[OF 3, of filepath sizes
        "now + stat_retry_wait + stat_retry_wait + stat_retry_wait"]
    by simp
qed


subsection \<open>Starting while a recording is active\<close>

text \<open>
  C6. \<open>startRecording\<close> called while \<open>isRecording\<close> is true fails with the conflict error
  \<open>Already recording\<close>, before any probe, wait or spawn (it performs no action at all),
  and leaves the four fields of the session as they were.
\<close>

theorem startRecording_conflict:
  "isRecording svc \<Longrightarrow>
   startRecording dirname env svc fs =
     \<lparr>result = Inl AlreadyRecording, service = svc, files = fs, actions = []\<rparr>"
  by (simp add: startRecording_def)

theorem startRecording_conflict_witness:
  "isRecording recording_service
   \<and> startRecording module_dir start_attempt recording_service Map.empty =
       \<lparr>result = Inl AlreadyRecording, service = recording_service, files = Map.empty,
        actions = []\<rparr>"
  using startRecording_conflict[of recording_service module_dir start_attempt Map.empty]
  by (simp add: recording_service_def)

subsection \<open>A photo while the stream is not ready\<close>

text \<open>
  C8. When none of the three attempts of the health probe finds the stream ready,
  \<open>capturePhoto\<close> fails with the error \<open>Stream not ready\<close>, whose message no other
  error of the service has. It has probed three times with one second between the
  attempts and has done nothing else: the capture command is not run and the file
  system is as it was, so the freshly named photo has not been created.
\<close>

theorem capturePhoto_not_ready:
  assumes "\<And>attempt. 1 \<le> attempt \<Longrightarrow> attempt \<le> 3 \<Longrightarrow>
             \<not> probe_ready (photo_probes env attempt)"
  shows "capturePhoto dirname env svc fs =
           \<lparr>result = Inl StreamNotReady, service = svc, files = fs,
            actions = [HttpGet, Sleep 1000, HttpGet, Sleep 1000, HttpGet]\<rparr>
       \<and> (\<forall>e. error_message e = error_message StreamNotReady \<longrightarrow> e = StreamNotReady)"
  using checkStreamHealth_never_ready[OF assms] not_ready_message_distinct
  by (simp add: capturePhoto_def Let_def)

theorem capturePhoto_not_ready_witness:
  "\<not> probe_ready (photo_probes photo_attempt 1) \<and> \<not> probe_ready (photo_probes photo_attempt 2)
   \<and> \<not> probe_ready (photo_probes photo_attempt 3)
   \<and> capturePhoto module_dir photo_attempt constructor Map.empty =
       \<lparr>result = Inl StreamNotReady, service = constructor, files = Map.empty,
        actions = [HttpGet, Sleep 1000, HttpGet, Sleep 1000, HttpGet]\<rparr>"
proof -
  have p: "\<not> probe_ready (photo_probes photo_attempt attempt)" for attempt
    by (simp add: photo_attempt_def stream_starting_def)
  from capturePhoto_not_ready[of photo_attempt module_dir constructor Map.empty] p
  show ?thesis by simp
qed

subsection \<open>A failing disk-space probe\<close>




subsection \<open>Stopping a recording\<close>

lemma verify_from_times:
  "i \<le> 3 \<Longrightarrow> (at, a) \<in> set (snd (snd (verify_from filepath sizes now i))) \<Longrightarrow> now \<le> at"
proof (induction "3 - i" arbitrary: i now)
  case 0
  then have "\<not> i < 3" by simp
  from verify_from_done[OF this] 0 show ?case by simp
next
  case (Suc n)
  then have lt: "i < 3" by simp
  from Suc.hyps(2) lt have n: "n = 3 - Suc i" "Suc i \<le> 3" by simp_all
  have later: "now + stat_retry_wait \<le> at"
    if "(at, a) \<in> set (snd (snd (verify_from filepath sizes (now + stat_retry_wait) (Suc i))))"
    using Suc.hyps(1)[OF n that] .
  show ?case
    using Suc.prems(2) later
    by (auto simp: verify_from_round[OF lt] Let_def stat_retry_wait_def
        split: if_splits option.splits prod.splits)
qed

lemma recording_exit_idle:
  "(recording_exit_handler svc)\<lparr>isRecording := False, recordingProcess := None\<rparr>
   = svc\<lparr>isRecording := False, recordingProcess := None\<rparr>"
  by (simp add: recording_exit_handler_def)

lemma stopRecording_exited:
  assumes "isRecording svc" "recordingProcess svc = Some p"
    and "await_exit (process env) = (sent, Some t)"
  shows "stopRecording env svc =
           (let idle = svc\<lparr>isRecording := False, recordingProcess := None\<rparr>;
                (found, finish, acts) =
                  verify_from (currentVideoFile svc) (stats env) (t + sync_wait) 0
            in \<lparr>settled =
                  Some (case (found, currentVideoFile svc) of
                          (Some sz, Some f) \<Rightarrow>
                            Inr (Video (basename f) f sz
                                   ((stop_clock env
                                       - (case recordingStartTime svc of Some t \<Rightarrow> t | None \<Rightarrow> 0))
                                      div 1000)
                                   (stop_iso env))
                        | _ \<Rightarrow> Inl VerificationFailed),
                settled_at = Some finish, exited_at = Some t,
                service_at_exit = Some idle, stop_service = idle,
                timeline = sent @ [(t, Sleep sync_wait)] @ acts\<rparr>)"
  using assms by (simp add: stopRecording_def Let_def recording_exit_idle split: prod.splits)

lemma stopRecording_exited_fields:
  assumes "isRecording svc" "recordingProcess svc = Some p"
    and "await_exit (process env) = (sent, Some t)"
  shows "exited_at (stopRecording env svc) = Some t"
    and "service_at_exit (stopRecording env svc)
           = Some (svc\<lparr>isRecording := False, recordingProcess := None\<rparr>)"
    and "stop_service (stopRecording env svc)
           = svc\<lparr>isRecording := False, recordingProcess := None\<rparr>"
    and "settled_at (stopRecording env svc)
           = Some (fst (snd (verify_from (currentVideoFile svc) (stats env) (t + sync_wait) 0)))"
    and "timeline (stopRecording env svc)
           = sent @ [(t, Sleep sync_wait)]
               @ snd (snd (verify_from (currentVideoFile svc) (stats env) (t + sync_wait) 0))"
    and "fst (verify_from (currentVideoFile svc) (stats env) (t + sync_wait) 0) = None
           \<Longrightarrow> settled (stopRecording env svc) = Some (Inl VerificationFailed)"
  by (auto simp: stopRecording_exited[OF assms] Let_def split: prod.splits)


lemma await_exit_no_stat: "(at, a) \<in> set (fst (await_exit p)) \<Longrightarrow> \<not> is_stat a"
  by (auto simp: await_exit_def request_stop_def Let_def
      split: stdin_state.splits if_splits option.splits)

text \<open>
  C7. Once the recording process has exited, at time \<open>t\<close> after the call, the session is
  idle: \<open>isRecording\<close> is false and the process handle is cleared right in the exit
  handler, whatever the file checks will find, and every \<open>stat\<close> of the verification
  comes after the half-second wait that follows. If the output file is missing or
  empty at all three checks, \<open>stopRecording\<close> fails with the verification error, 900 ms
  after that wait, and the session is still idle.
\<close>

theorem stopRecording_idle_at_exit:
  assumes rec: "isRecording svc" "recordingProcess svc = Some p"
    and ex: "snd (await_exit (process env)) = Some t"
  shows "service_at_exit (stopRecording env svc)
           = Some (svc\<lparr>isRecording := False, recordingProcess := None\<rparr>)
       \<and> exited_at (stopRecording env svc) = Some t
       \<and> (\<forall>at a. (at, a) \<in> set (timeline (stopRecording env svc)) \<and> is_stat a
                   \<longrightarrow> t + sync_wait \<le> at)
       \<and> stop_service (stopRecording env svc)
           = svc\<lparr>isRecording := False, recordingProcess := None\<rparr>
       \<and> ((\<forall>i<3. stats env i = None \<or> stats env i = Some 0) \<longrightarrow>
            settled (stopRecording env svc) = Some (Inl VerificationFailed)
            \<and> settled_at (stopRecording env svc) = Some (t + sync_wait + 3 * stat_retry_wait))"
proof -
  obtain sent where a: "await_exit (process env) = (sent, Some t)"
    using ex by (cases "await_exit (process env)") simp
  note out = stopRecording_exited_fields[OF rec a]
  have sent: "\<not> is_stat a" if "(at, a) \<in> set sent" for at a
    using await_exit_no_stat[of at a "process env"] that a by simp
  have times: "t + sync_wait \<le> at"
    if "(at, a) \<in> set (timeline (stopRecording env svc)) \<and> is_stat a" for at a
    using that sent[of at a]
      verify_from_times[of 0 at a "currentVideoFile svc" "stats env" "t + sync_wait"]
    by (auto simp: out(5))
  have fail: "settled (stopRecording env svc) = Some (Inl VerificationFailed)
      \<and> settled_at (stopRecording env svc) = Some (t + sync_wait + 3 * stat_retry_wait)"
    if "\<forall>i<3. stats env i = None \<or> stats env i = Some 0"
    using verify_from_none_found[of "stats env" "currentVideoFile svc" "t + sync_wait"] that
      out(6)
    by (simp add: out(4))
  show ?thesis
    using out(1,2,3) times fail by blast
qed

theorem stopRecording_idle_at_exit_witness:
  "isRecording recording_service \<and> recordingProcess recording_service = Some 7
   \<and> snd (await_exit (process empty_file_stop)) = Some 120
   \<and> stats empty_file_stop 0 = None \<and> stats empty_file_stop 1 = None
   \<and> stats empty_file_stop 2 = None
   \<and> service_at_exit (stopRecording empty_file_stop recording_service)
       = Some (recording_service\<lparr>isRecording := False, recordingProcess := None\<rparr>)
   \<and> settled (stopRecording empty_file_stop recording_service) = Some (Inl VerificationFailed)
   \<and> settled_at (stopRecording empty_file_stop recording_service) = Some 1520
   \<and> isRecording (stop_service (stopRecording empty_file_stop recording_service)) = False
   \<and> recordingProcess (stop_service (stopRecording empty_file_stop recording_service)) = None"
proof -
  have r: "isRecording recording_service" "recordingProcess recording_service = Some 7"
    by (simp_all add: recording_service_def)
  have e: "snd (await_exit (process empty_file_stop)) = Some 120"
    by code_simp
  have s: "stats empty_file_stop i = None" for i
    by (simp add: empty_file_stop_def never_found_def)
  from stopRecording_idle_at_exit[OF r e] r e s show ?thesis
    by (simp add: sync_wait_def stat_retry_wait_def)
qed












subsection \<open>File names that leave the capture directories\<close>

lemma split_path_nonempty: "split_path s \<noteq> []"
  by (induction s) (auto split: list.splits)

lemma split_path_no_slash: "CHR ''/'' \<notin> set s \<Longrightarrow> split_path s = [s]"
  by (induction s) auto

lemma split_path_append:
  "split_path (a @ ''/'' @ b) = split_path a @ split_path b"
proof (induction a)
  case Nil
  show ?case by simp
next
  case (Cons c cs)
  obtain seg segs where s: "split_path cs = seg # segs"
    using split_path_nonempty[of cs] by (cases "split_path cs") auto
  with Cons show ?case by auto
qed

lemma abs_path_snoc: "abs_path (segs @ [seg]) = abs_path segs @ ''/'' @ seg"
  by (induction segs) auto

lemma split_path_abs:
  "\<forall>s\<in>set segs. plain s \<Longrightarrow> split_path (abs_path segs) = [] # segs"
proof (induction segs rule: rev_induct)
  case Nil
  show ?case by simp
next
  case (snoc seg segs)
  then have "CHR ''/'' \<notin> set seg" by (simp add: plain_def)
  with snoc show ?case
    using split_path_append[of "abs_path segs" seg]
    by (simp add: abs_path_snoc split_path_no_slash)
qed

lemma normalize_segments_append:
  "normalize_segments b res (xs @ ys)
   = normalize_segments b (rev (normalize_segments b res xs)) ys"
  by (induction xs arbitrary: res) (auto split: list.splits)

lemma normalize_segments_plain:
  "\<forall>s\<in>set segs. plain s \<Longrightarrow> normalize_segments b res segs = rev res @ segs"
  by (induction segs arbitrary: res) (auto simp: plain_def)

lemma join_segments_abs: "segs \<noteq> [] \<Longrightarrow> ''/'' @ join_segments segs = abs_path segs"
  by (induction segs rule: join_segments.induct) auto

lemma join_segments_empty: "\<forall>s\<in>set segs. plain s \<Longrightarrow> join_segments segs = [] \<longleftrightarrow> segs = []"
  by (induction segs rule: join_segments.induct) (auto simp: plain_def)

lemma abs_path_hd: "segs \<noteq> [] \<Longrightarrow> abs_path segs \<noteq> [] \<and> hd (abs_path segs) = CHR ''/''"
  by (cases segs) auto

text \<open>Joining a path below a normalised absolute directory.\<close>

lemma path_join_abs:
  assumes p: "\<forall>s\<in>set segs. plain s" and ne: "segs \<noteq> []"
    and r: "rel \<noteq> []" "last rel \<noteq> CHR ''/''"
    and out: "normalize_segments False (rev segs) (split_path rel) = segs'"
    and p': "\<forall>s\<in>set segs'. plain s" "segs' \<noteq> []"
  shows "path_join [abs_path segs, rel] = abs_path segs'"
proof -
  define pp where "pp = abs_path segs @ ''/'' @ rel"
  have a: "abs_path segs \<noteq> []" using abs_path_hd[OF ne] by simp
  have j: "path_join [abs_path segs, rel] = path_normalize pp"
    using a r by (simp add: path_join_def pp_def)
  have h: "pp \<noteq> []" "hd pp = CHR ''/''" "last pp \<noteq> CHR ''/''"
    using abs_path_hd[OF ne] r by (auto simp: pp_def last_append)
  have "normalize_segments False [] (split_path pp)
        = normalize_segments False (rev (normalize_segments False [] ([] # segs))) (split_path rel)"
    using split_path_append[of "abs_path segs" rel] split_path_abs[OF p]
      normalize_segments_append[of False "[]" "[] # segs" "split_path rel"]
    by (simp add: pp_def)
  also have "normalize_segments False [] ([] # segs) = segs"
    using normalize_segments_plain[OF p, of False "[]"] by simp
  finally have n: "normalize_segments False [] (split_path pp) = segs'"
    using out by simp
  have q: "join_segments segs' \<noteq> []" using join_segments_empty[OF p'(1)] p'(2) by simp
  have "path_normalize pp = ''/'' @ join_segments segs'"
    using h n q by (simp add: path_normalize_def Let_def)
  with j join_segments_abs[OF p'(2)] show ?thesis by simp
qed

lemma plain_butlast: "\<forall>s\<in>set segs. plain s \<Longrightarrow> \<forall>s\<in>set (butlast segs). plain s"
  by (auto dest: in_set_butlastD)

lemma pop_plain:
  "\<forall>s\<in>set segs. plain s \<Longrightarrow>
   normalize_segments False (rev segs) (''..'' # rest)
   = normalize_segments False (rev (butlast segs)) rest"
  by (cases segs rule: rev_cases) (auto simp: plain_def)

lemma captures_dir_abs:
  assumes p: "\<forall>s\<in>set segs. plain s" and ne: "segs \<noteq> []"
  shows "CAPTURES_DIR (abs_path segs) = abs_path (project_root segs @ [''captures''])"
proof -
  have s: "split_path ''../../captures'' = [''..'', ''..'', ''captures'']" by code_simp
  have pc: "plain ''captures''" by (simp add: plain_def)
  have "normalize_segments False (rev segs) (split_path ''../../captures'')
        = project_root segs @ [''captures'']"
    using pop_plain[OF p] pop_plain[OF plain_butlast[OF p]]
    by (simp add: s project_root_def)
  from path_join_abs[OF p ne _ _ this] pc plain_butlast[OF plain_butlast[OF p]]
  show ?thesis by (simp add: CAPTURES_DIR_def project_root_def)
qed

lemma photos_dir_abs:
  assumes p: "\<forall>s\<in>set segs. plain s" and ne: "segs \<noteq> []"
  shows "PHOTOS_DIR (abs_path segs) = abs_path (project_root segs @ [''captures'', ''photos''])"
proof -
  let ?c = "project_root segs @ [''captures'']"
  have pc: "\<forall>s\<in>set ?c. plain s"
    using plain_butlast[OF plain_butlast[OF p]] by (auto simp: plain_def project_root_def)
  have pp: "\<forall>s\<in>set (?c @ [''photos'']). plain s"
    using pc by (auto simp: plain_def)
  have s: "split_path ''photos'' = [''photos'']" by code_simp
  have "normalize_segments False (rev ?c) (split_path ''photos'') = ?c @ [''photos'']"
    by (simp add: s)
  from path_join_abs[OF pc _ _ _ this pp] captures_dir_abs[OF p ne]
  show ?thesis by (simp add: PHOTOS_DIR_def)
qed

lemma escape_path_abs:
  assumes p: "\<forall>s\<in>set segs. plain s" and ne: "segs \<noteq> []"
  shows "getFilePath (abs_path segs) ''photo_/../../../server.js''
         = Some (abs_path (project_root segs @ [''server.js'']))"
proof -
  let ?d = "project_root segs @ [''captures'', ''photos'']"
  have pr: "\<forall>s\<in>set (project_root segs). plain s"
    using plain_butlast[OF plain_butlast[OF p]] by (simp add: project_root_def)
  have pd: "\<forall>s\<in>set ?d. plain s" using pr by (auto simp: plain_def)
  have po: "\<forall>s\<in>set (project_root segs @ [''server.js'']). plain s"
    using pr by (auto simp: plain_def)
  have s: "split_path ''photo_/../../../server.js''
           = [''photo_'', ''..'', ''..'', ''..'', ''server.js'']" by code_simp
  have st: "startsWith ''photo_/../../../server.js'' ''photo_''" by code_simp
  have "normalize_segments False (rev ?d) (split_path ''photo_/../../../server.js'')
        = project_root segs @ [''server.js'']"
    by (simp add: s)
  from path_join_abs[OF pd _ _ _ this po] photos_dir_abs[OF p ne] st
  show ?thesis by (simp add: getFilePath_def)
qed

lemma startsWith_longer: "length s < length p \<Longrightarrow> \<not> startsWith s p"
  by (auto simp: startsWith_def)

lemma escape_outside:
  "\<not> inside (abs_path (root @ [''captures'', ''photos''])) (abs_path (root @ [''server.js'']))"
proof -
  have "abs_path (root @ xs) = abs_path root @ abs_path xs" for xs
    by (induction root) auto
  then show ?thesis
    by (intro notI) (auto simp: inside_def dest!: startsWith_longer[THEN notE, rotated])
qed

text \<open>
  C9. \<open>getFilePath\<close> looks at the first six characters of the name only: a name that
  starts with neither \<open>photo_\<close> nor \<open>video_\<close> gives \<open>null\<close>, any other name gives the
  join of its capture directory with the name as it is, separators and \<open>..\<close> segments
  included. Wherever the module lives (any absolute directory in normal form), the name
  \<open>photo_/../../../server.js\<close> is accepted and yields the file \<open>server.js\<close> in the
  project root, a path outside the photos directory, and \<open>deleteCapture\<close> unlinks that
  file when it exists.
\<close>

theorem getFilePath_prefix_only:
  "(\<not> startsWith filename ''photo_'' \<and> \<not> startsWith filename ''video_'' \<longrightarrow>
      getFilePath dirname filename = None)
   \<and> (startsWith filename ''photo_'' \<longrightarrow>
      getFilePath dirname filename = Some (path_join [PHOTOS_DIR dirname, filename]))
   \<and> (\<not> startsWith filename ''photo_'' \<and> startsWith filename ''video_'' \<longrightarrow>
      getFilePath dirname filename = Some (path_join [VIDEOS_DIR dirname, filename]))
   \<and> ((\<forall>s\<in>set segs. plain s) \<and> segs \<noteq> [] \<longrightarrow>
        startsWith ''photo_/../../../server.js'' ''photo_''
        \<and> PHOTOS_DIR (abs_path segs) = abs_path (project_root segs @ [''captures'', ''photos''])
        \<and> getFilePath (abs_path segs) ''photo_/../../../server.js''
            = Some (abs_path (project_root segs @ [''server.js'']))
        \<and> \<not> inside (PHOTOS_DIR (abs_path segs)) (abs_path (project_root segs @ [''server.js'']))
        \<and> (fs (abs_path (project_root segs @ [''server.js''])) = Some sz \<longrightarrow>
             deleteCapture (abs_path segs) ''photo_/../../../server.js'' svc fs =
               \<lparr>result = Inr (Deleted ''photo_/../../../server.js''), service = svc,
                files = fs(abs_path (project_root segs @ [''server.js'']) := None),
                actions = [Access (abs_path (project_root segs @ [''server.js''])),
                           Unlink (abs_path (project_root segs @ [''server.js'']))]\<rparr>))"
proof -
  have prefix: "(\<not> startsWith filename ''photo_'' \<and> \<not> startsWith filename ''video_'' \<longrightarrow>
      getFilePath dirname filename = None)
   \<and> (startsWith filename ''photo_'' \<longrightarrow>
      getFilePath dirname filename = Some (path_join [PHOTOS_DIR dirname, filename]))
   \<and> (\<not> startsWith filename ''photo_'' \<and> startsWith filename ''video_'' \<longrightarrow>
      getFilePath dirname filename = Some (path_join [VIDEOS_DIR dirname, filename]))"
    by (simp add: getFilePath_def)
  have s: "startsWith ''photo_/../../../server.js'' ''photo_''" by code_simp
  have escape: "PHOTOS_DIR (abs_path segs) = abs_path (project_root segs @ [''captures'', ''photos''])
        \<and> getFilePath (abs_path segs) ''photo_/../../../server.js''
            = Some (abs_path (project_root segs @ [''server.js'']))
        \<and> \<not> inside (PHOTOS_DIR (abs_path segs)) (abs_path (project_root segs @ [''server.js'']))
        \<and> (fs (abs_path (project_root segs @ [''server.js''])) = Some sz \<longrightarrow>
             deleteCapture (abs_path segs) ''photo_/../../../server.js'' svc fs =
               \<lparr>result = Inr (Deleted ''photo_/../../../server.js''), service = svc,
                files = fs(abs_path (project_root segs @ [''server.js'']) := None),
                actions = [Access (abs_path (project_root segs @ [''server.js''])),
                           Unlink (abs_path (project_root segs @ [''server.js'']))]\<rparr>)"
    if p: "\<forall>s\<in>set segs. plain s" and ne: "segs \<noteq> []"
    using photos_dir_abs[OF p ne] escape_path_abs[OF p ne] escape_outside[of "project_root segs"]
    by (simp add: deleteCapture_def)
  from prefix s escape show ?thesis by blast
qed

theorem getFilePath_prefix_only_witness:
  "\<not> startsWith ''notes.txt'' ''photo_'' \<and> \<not> startsWith ''notes.txt'' ''video_''
   \<and> getFilePath module_dir ''notes.txt'' = None
   \<and> plain ''home'' \<and> plain ''pi'' \<and> plain ''ChadJaew2'' \<and> plain ''src'' \<and> plain ''camera''
   \<and> abs_path [''home'', ''pi'', ''ChadJaew2'', ''src'', ''camera''] = module_dir
   \<and> PHOTOS_DIR module_dir = ''/home/pi/ChadJaew2/captures/photos''
   \<and> getFilePath module_dir ''photo_/../../../server.js'' = Some ''/home/pi/ChadJaew2/server.js''
   \<and> [''/home/pi/ChadJaew2/server.js'' \<mapsto> 4096] ''/home/pi/ChadJaew2/server.js'' = Some 4096
   \<and> files (deleteCapture module_dir ''photo_/../../../server.js'' constructor
              [''/home/pi/ChadJaew2/server.js'' \<mapsto> 4096]) ''/home/pi/ChadJaew2/server.js''
       = None"
proof -
  let ?segs = "[''home'', ''pi'', ''ChadJaew2'', ''src'', ''camera'']"
  have n: "\<not> startsWith ''notes.txt'' ''photo_''" "\<not> startsWith ''notes.txt'' ''video_''"
    by code_simp+
  have p: "\<forall>s\<in>set ?segs. plain s" by (simp add: plain_def)
  have a: "abs_path ?segs = module_dir" by (simp add: module_dir_def)
  have r: "abs_path (project_root ?segs @ [''server.js'']) = ''/home/pi/ChadJaew2/server.js''"
    "abs_path (project_root ?segs @ [''captures'', ''photos''])
     = ''/home/pi/ChadJaew2/captures/photos''"
    by (simp_all add: project_root_def)
  from getFilePath_prefix_only[of "''notes.txt''" module_dir ?segs
      "[''/home/pi/ChadJaew2/server.js'' \<mapsto> 4096]" 4096 constructor] n p
  show ?thesis unfolding a r by simp
qed

end
